theory Spec2Isabelle
  imports Main
begin

section \<open>Prometheus Gym Suite: derived member, coach, session and payment state\<close>

text \<open>
  The development embeds the PL/pgSQL functions and triggers of \<^verbatim>\<open>supabase-schema.sql\<close>
  and the TypeScript services that call them (\<^verbatim>\<open>membersService\<close>,
  \<^verbatim>\<open>paymentsService\<close>, \<^verbatim>\<open>sessionsService\<close>, \<^verbatim>\<open>dashboardService\<close>).
  A table is the list of its rows, a row is a record of the columns the functions read or
  write, a nullable column is an \<open>option\<close>, and a statement that the database rejects
  returns the error and leaves the tables as they were.
\<close>

subsection \<open>Column types\<close>

type_synonym uuid = string

text \<open>\<^verbatim>\<open>TIMESTAMPTZ\<close>: an instant, in microseconds since the epoch. \<^verbatim>\<open>NOW()\<close> is the
  start of the current transaction, so one value serves a statement and its triggers.\<close>

type_synonym timestamptz = int

text \<open>\<^verbatim>\<open>DECIMAL(10,2)\<close>: an amount in hundredths.\<close>

type_synonym decimal = int

datatype activity_status = active | moderate | inactive

datatype payment_status = paid | pending | overdue

datatype sql_error =
    unique_violation
  | foreign_key_violation
  | numeric_value_out_of_range
  | invalid_text_representation
  | invalid_datetime_format
  | undefined_column
  | undefined_function

text \<open>\<^verbatim>\<open>INTERVAL 'n days'\<close> subtracted from an instant, for a session time zone without
  daylight saving (the hosted database runs in UTC): \<open>n\<close> times 24 hours.\<close>

definition interval_days :: "int \<Rightarrow> int" where
  "interval_days n = n * 86400000000"

subsection \<open>Three-valued comparisons\<close>

text \<open>A comparison with \<^verbatim>\<open>NULL\<close> is \<^verbatim>\<open>NULL\<close> (\<open>None\<close>); \<^verbatim>\<open>IF\<close>, \<^verbatim>\<open>WHEN\<close>
  and \<^verbatim>\<open>WHERE\<close> take a branch or a row only when the condition is true.\<close>

definition sql_ge :: "int option \<Rightarrow> int option \<Rightarrow> bool option" where
  "sql_ge a b = (case a of None \<Rightarrow> None | Some x \<Rightarrow> (case b of None \<Rightarrow> None | Some y \<Rightarrow> Some (x \<ge> y)))"

definition sql_ne :: "'a option \<Rightarrow> 'a option \<Rightarrow> bool option" where
  "sql_ne a b = (case a of None \<Rightarrow> None | Some x \<Rightarrow> (case b of None \<Rightarrow> None | Some y \<Rightarrow> Some (x \<noteq> y)))"

definition sql_and :: "bool option \<Rightarrow> bool option \<Rightarrow> bool option" where
  "sql_and a b =
     (if a = Some False \<or> b = Some False then Some False
      else if a = Some True \<and> b = Some True then Some True
      else None)"

definition is_not_null :: "'a option \<Rightarrow> bool option" where
  "is_not_null a = Some (a \<noteq> None)"

definition is_true :: "bool option \<Rightarrow> bool" where
  "is_true c = (c = Some True)"

subsection \<open>Tables\<close>

record coach =
  c_id :: uuid
  c_gym_id :: uuid
  c_is_active :: "bool option"
  c_client_count :: "int option"
  c_updated_at :: "timestamptz option"

record member =
  m_id :: uuid
  m_gym_id :: uuid
  m_coach_id :: "uuid option"
  m_monthly_fee :: "decimal option"
  m_activity_status :: "activity_status option"
  m_last_visit :: "timestamptz option"
  m_total_visits :: "int option"
  m_updated_at :: "timestamptz option"

record member_visit =
  v_id :: uuid
  v_member_id :: uuid
  v_gym_id :: uuid
  v_check_in :: "timestamptz option"
  v_check_out :: "timestamptz option"
  v_created_at :: "timestamptz option"

record session =
  s_id :: uuid
  s_gym_id :: uuid
  s_start_time :: timestamptz
  s_current_participants :: "int option"
  s_updated_at :: "timestamptz option"

record session_participant =
  sp_id :: uuid
  sp_session_id :: uuid
  sp_member_id :: uuid

record alert =
  a_id :: uuid
  a_gym_id :: uuid
  a_is_read :: "bool option"
  a_created_at :: "timestamptz option"

record db =
  coaches :: "coach list"
  members :: "member list"
  member_visits :: "member_visit list"
  sessions :: "session list"
  session_participants :: "session_participant list"

subsection \<open>Coach client count\<close>

text \<open>
  \<^verbatim>\<open>UPDATE coaches SET client_count = (SELECT COUNT(*) FROM members WHERE coach_id = cid)
  WHERE id = cid\<close>; the \<^verbatim>\<open>BEFORE UPDATE\<close> trigger \<^verbatim>\<open>update_coaches_updated_at\<close> stamps
  the row.
\<close>

definition count_members :: "uuid \<Rightarrow> db \<Rightarrow> int" where
  "count_members cid d = int (length (filter (\<lambda>m. m_coach_id m = Some cid) (members d)))"

definition recount :: "timestamptz \<Rightarrow> uuid \<Rightarrow> db \<Rightarrow> db" where
  "recount now cid d =
     d\<lparr>coaches :=
         map (\<lambda>c. if c_id c = cid
                   then c\<lparr>c_client_count := Some (count_members cid d), c_updated_at := Some now\<rparr>
                   else c)
             (coaches d)\<rparr>"

text \<open>\<^verbatim>\<open>SELECT client_count FROM coaches WHERE id = cid\<close>.\<close>

definition client_count :: "uuid \<Rightarrow> db \<Rightarrow> int option" where
  "client_count cid d =
     (case find (\<lambda>c. c_id c = cid) (coaches d) of None \<Rightarrow> None | Some c \<Rightarrow> c_client_count c)"

text \<open>The row-level trigger event: \<^verbatim>\<open>TG_OP\<close> with the \<^verbatim>\<open>NEW\<close> and \<^verbatim>\<open>OLD\<close> rows it has.\<close>

datatype tg_event = TG_INSERT member | TG_UPDATE member member | TG_DELETE member

text \<open>\<^verbatim>\<open>update_coach_client_count()\<close>; in \<open>TG_UPDATE old new\<close> the first row is
  \<^verbatim>\<open>OLD\<close>.\<close>

fun update_coach_client_count :: "timestamptz \<Rightarrow> tg_event \<Rightarrow> db \<Rightarrow> db" where
  "update_coach_client_count now (TG_INSERT new) d =
     (case m_coach_id new of None \<Rightarrow> d | Some cid \<Rightarrow> recount now cid d)"
| "update_coach_client_count now (TG_UPDATE old new) d =
     (let d1 = (case m_coach_id new of None \<Rightarrow> d | Some cid \<Rightarrow> recount now cid d)
      in if is_true (sql_and (is_not_null (m_coach_id old))
                             (sql_ne (m_coach_id old) (m_coach_id new)))
         then (case m_coach_id old of None \<Rightarrow> d1 | Some cid \<Rightarrow> recount now cid d1)
         else d1)"
| "update_coach_client_count now (TG_DELETE old) d =
     (case m_coach_id old of None \<Rightarrow> d | Some cid \<Rightarrow> recount now cid d)"

subsection \<open>Statements on members\<close>

text \<open>\<^verbatim>\<open>update_updated_at()\<close>, the \<^verbatim>\<open>BEFORE UPDATE\<close> trigger of every table.\<close>

definition update_updated_at :: "timestamptz \<Rightarrow> member \<Rightarrow> member" where
  "update_updated_at now new = new\<lparr>m_updated_at := Some now\<rparr>"

definition fk_coach_ok :: "db \<Rightarrow> member \<Rightarrow> bool" where
  "fk_coach_ok d m =
     (case m_coach_id m of None \<Rightarrow> True | Some cid \<Rightarrow> cid \<in> set (map c_id (coaches d)))"

text \<open>
  \<^verbatim>\<open>UPDATE members SET ... WHERE ...\<close>: \<open>P\<close> is the \<^verbatim>\<open>WHERE\<close> clause and \<open>f\<close> the
  \<^verbatim>\<open>SET\<close> list (no statement of the program sets \<^verbatim>\<open>id\<close>). Every matched row passes
  the \<^verbatim>\<open>BEFORE UPDATE\<close> trigger; the foreign key is checked for a row whose
  \<^verbatim>\<open>coach_id\<close> changes; the \<^verbatim>\<open>AFTER UPDATE\<close> trigger
  \<^verbatim>\<open>update_coach_clients\<close> then runs once for each matched row, on the updated table.
\<close>

definition update_members ::
  "timestamptz \<Rightarrow> (member \<Rightarrow> bool) \<Rightarrow> (member \<Rightarrow> member) \<Rightarrow> db \<Rightarrow> sql_error + db" where
  "update_members now P f d =
     (let set_row = (\<lambda>m. update_updated_at now (f m));
          d1 = d\<lparr>members := map (\<lambda>m. if P m then set_row m else m) (members d)\<rparr>
      in if \<not> list_all (\<lambda>m. m_coach_id (set_row m) = m_coach_id m \<or> fk_coach_ok d (set_row m))
                         (filter P (members d))
         then Inl foreign_key_violation
         else Inr (foldl (\<lambda>acc old. update_coach_client_count now (TG_UPDATE old (set_row old)) acc)
                         d1 (filter P (members d))))"

definition insert_member :: "timestamptz \<Rightarrow> member \<Rightarrow> db \<Rightarrow> sql_error + db" where
  "insert_member now new d =
     (if m_id new \<in> set (map m_id (members d)) then Inl unique_violation
      else if \<not> fk_coach_ok d new then Inl foreign_key_violation
      else Inr (update_coach_client_count now (TG_INSERT new) (d\<lparr>members := members d @ [new]\<rparr>)))"

text \<open>\<^verbatim>\<open>DELETE FROM members WHERE id = mid\<close>; the visits of the member go with it
  (\<^verbatim>\<open>ON DELETE CASCADE\<close>).\<close>

definition delete_member :: "timestamptz \<Rightarrow> uuid \<Rightarrow> db \<Rightarrow> db" where
  "delete_member now mid d =
     (let d1 = d\<lparr>members := filter (\<lambda>m. m_id m \<noteq> mid) (members d),
                 member_visits := filter (\<lambda>v. v_member_id v \<noteq> mid) (member_visits d)\<rparr>
      in foldl (\<lambda>acc old. update_coach_client_count now (TG_DELETE old) acc)
               d1 (filter (\<lambda>m. m_id m = mid) (members d)))"

subsection \<open>Activity status\<close>

text \<open>The \<^verbatim>\<open>CASE\<close> expression of \<^verbatim>\<open>update_member_activity_status()\<close>.\<close>

definition activity_case :: "timestamptz \<Rightarrow> timestamptz option \<Rightarrow> activity_status" where
  "activity_case now last_visit =
     (if is_true (sql_ge last_visit (Some (now - interval_days 7))) then active
      else if is_true (sql_ge last_visit (Some (now - interval_days 30))) then moderate
      else inactive)"

text \<open>\<^verbatim>\<open>update_member_activity_status()\<close>, with \<open>new\<close> the inserted visit row.\<close>

definition update_member_activity_status ::
  "timestamptz \<Rightarrow> member_visit \<Rightarrow> db \<Rightarrow> sql_error + db" where
  "update_member_activity_status now new d =
     update_members now (\<lambda>m. m_id m = v_member_id new)
       (\<lambda>m. m\<lparr>m_activity_status := Some (activity_case now (m_last_visit m))\<rparr>) d"

text \<open>\<^verbatim>\<open>INSERT INTO member_visits\<close>, with its \<^verbatim>\<open>AFTER INSERT\<close> trigger
  \<^verbatim>\<open>update_activity_on_visit\<close>.\<close>

definition insert_member_visit :: "timestamptz \<Rightarrow> member_visit \<Rightarrow> db \<Rightarrow> sql_error + db" where
  "insert_member_visit now new d =
     (if v_id new \<in> set (map v_id (member_visits d)) then Inl unique_violation
      else if v_member_id new \<notin> set (map m_id (members d)) then Inl foreign_key_violation
      else update_member_activity_status now new (d\<lparr>member_visits := member_visits d @ [new]\<rparr>))"

subsection \<open>Session participants\<close>

text \<open>\<^verbatim>\<open>INTEGER\<close> arithmetic: a result outside 32 bits is an error, \<^verbatim>\<open>NULL\<close>
  propagates. \<^verbatim>\<open>GREATEST\<close> ignores a \<^verbatim>\<open>NULL\<close> argument.\<close>

definition int4 :: "int \<Rightarrow> sql_error + int" where
  "int4 i = (if - 2147483648 \<le> i \<and> i \<le> 2147483647 then Inr i
             else Inl numeric_value_out_of_range)"

definition int4_plus :: "int option \<Rightarrow> int \<Rightarrow> sql_error + int option" where
  "int4_plus a b =
     (case a of None \<Rightarrow> Inr None
      | Some x \<Rightarrow> (case int4 (x + b) of Inl e \<Rightarrow> Inl e | Inr y \<Rightarrow> Inr (Some y)))"

definition greatest :: "int \<Rightarrow> int option \<Rightarrow> int option" where
  "greatest a b = (case b of None \<Rightarrow> Some a | Some y \<Rightarrow> Some (max a y))"

text \<open>A statement whose \<^verbatim>\<open>SET\<close> expression can fail: the first failing row aborts it.\<close>

fun map_rows :: "('a \<Rightarrow> sql_error + 'a) \<Rightarrow> 'a list \<Rightarrow> sql_error + 'a list" where
  "map_rows f [] = Inr []"
| "map_rows f (x # xs) =
     (case f x of Inl e \<Rightarrow> Inl e
      | Inr y \<Rightarrow> (case map_rows f xs of Inl e \<Rightarrow> Inl e | Inr ys \<Rightarrow> Inr (y # ys)))"

definition increment_session_participants :: "timestamptz \<Rightarrow> uuid \<Rightarrow> db \<Rightarrow> sql_error + db" where
  "increment_session_participants now session_uuid d =
     (case map_rows
             (\<lambda>s. if s_id s = session_uuid
                   then (case int4_plus (s_current_participants s) 1 of
                           Inl e \<Rightarrow> Inl e
                         | Inr n \<Rightarrow> Inr (s\<lparr>s_current_participants := n, s_updated_at := Some now\<rparr>))
                   else Inr s)
             (sessions d) of
        Inl e \<Rightarrow> Inl e
      | Inr rows \<Rightarrow> Inr (d\<lparr>sessions := rows\<rparr>))"

definition decrement_session_participants :: "timestamptz \<Rightarrow> uuid \<Rightarrow> db \<Rightarrow> sql_error + db" where
  "decrement_session_participants now session_uuid d =
     (case map_rows
             (\<lambda>s. if s_id s = session_uuid
                   then (case int4_plus (s_current_participants s) (- 1) of
                           Inl e \<Rightarrow> Inl e
                         | Inr n \<Rightarrow> Inr (s\<lparr>s_current_participants := greatest 0 n,
                                           s_updated_at := Some now\<rparr>))
                   else Inr s)
             (sessions d) of
        Inl e \<Rightarrow> Inl e
      | Inr rows \<Rightarrow> Inr (d\<lparr>sessions := rows\<rparr>))"

text \<open>The counter of every session is a non-null, non-negative \<^verbatim>\<open>INTEGER\<close>.\<close>

definition participants_nonneg :: "db \<Rightarrow> bool" where
  "participants_nonneg d =
     list_all (\<lambda>s. case s_current_participants s of
                      None \<Rightarrow> False
                    | Some n \<Rightarrow> 0 \<le> n \<and> n \<le> 2147483647)
       (sessions d)"

subsection \<open>Visit counter\<close>

text \<open>\<^verbatim>\<open>increment_visits(member_uuid)\<close>: the new count is that of the updated row,
  \<^verbatim>\<open>NULL\<close> when no row has the id.\<close>

definition increment_visits :: "timestamptz \<Rightarrow> uuid \<Rightarrow> db \<Rightarrow> sql_error + (int option \<times> db)" where
  "increment_visits now member_uuid d =
     (if list_ex (\<lambda>m. m_id m = member_uuid \<and> m_total_visits m = Some 2147483647) (members d)
      then Inl numeric_value_out_of_range
      else (case update_members now (\<lambda>m. m_id m = member_uuid)
                   (\<lambda>m. m\<lparr>m_total_visits := map_option (\<lambda>n. n + 1) (m_total_visits m),
                          m_last_visit := Some now\<rparr>) d of
              Inl e \<Rightarrow> Inl e
            | Inr d' \<Rightarrow>
                Inr (case find (\<lambda>m. m_id m = member_uuid) (members d') of
                       None \<Rightarrow> None
                     | Some m \<Rightarrow> m_total_visits m, d')))"

subsection \<open>Requests of the client library\<close>

text \<open>
  The JSON values the services send. \<open>JTimestamp\<close> is the string that
  \<^verbatim>\<open>toISOString()\<close> gives for an instant.
\<close>

datatype json =
    JNull
  | JNumber int
  | JString string
  | JTimestamp timestamptz
  | JObject "(string \<times> json) list"

text \<open>
  \<^verbatim>\<open>supabase.rpc(fn, args)\<close> builds a request and returns it; the request is sent only
  when the returned object is awaited. Used as a value, it is the object itself.
\<close>

definition rpc_request :: "string \<Rightarrow> (string \<times> uuid) list \<Rightarrow> json" where
  "rpc_request fn args =
     JObject [(''method'', JString ''POST''),
              (''url'', JString (''/rest/v1/rpc/'' @ fn)),
              (''body'', JObject (map (\<lambda>(k, v). (k, JString v)) args))]"

text \<open>
  An awaited \<^verbatim>\<open>rpc\<close>: the server finds the function by its name and the names of the
  arguments of the call, which must be the parameter names of the declaration.
\<close>

fun rpc :: "timestamptz \<Rightarrow> string \<Rightarrow> (string \<times> uuid) list \<Rightarrow> db \<Rightarrow> sql_error + db" where
  "rpc now fn [(k, v)] d =
     (if fn = ''increment_visits'' \<and> k = ''member_uuid''
      then (case increment_visits now v d of Inl e \<Rightarrow> Inl e | Inr (n, d') \<Rightarrow> Inr d')
      else if fn = ''increment_session_participants'' \<and> k = ''session_uuid''
      then increment_session_participants now v d
      else if fn = ''decrement_session_participants'' \<and> k = ''session_uuid''
      then decrement_session_participants now v d
      else Inl undefined_function)"
| "rpc now fn args d = Inl undefined_function"

text \<open>The value of a request body for a column of the given type.\<close>

fun as_timestamptz :: "json \<Rightarrow> sql_error + timestamptz option" where
  "as_timestamptz JNull = Inr None"
| "as_timestamptz (JTimestamp t) = Inr (Some t)"
| "as_timestamptz v = Inl invalid_datetime_format"

fun as_integer :: "json \<Rightarrow> sql_error + int option" where
  "as_integer JNull = Inr None"
| "as_integer (JNumber n) = (case int4 n of Inl e \<Rightarrow> Inl e | Inr i \<Rightarrow> Inr (Some i))"
| "as_integer v = Inl invalid_text_representation"

fun as_uuid :: "json \<Rightarrow> sql_error + uuid option" where
  "as_uuid JNull = Inr None"
| "as_uuid (JString u) = Inr (Some u)"
| "as_uuid v = Inl invalid_text_representation"

definition set_column :: "string \<times> json \<Rightarrow> sql_error + (member \<Rightarrow> member)" where
  "set_column kv =
     (if fst kv = ''coach_id''
      then (case as_uuid (snd kv) of Inl e \<Rightarrow> Inl e | Inr c \<Rightarrow> Inr (\<lambda>m. m\<lparr>m_coach_id := c\<rparr>))
      else if fst kv = ''last_visit''
      then (case as_timestamptz (snd kv) of Inl e \<Rightarrow> Inl e | Inr t \<Rightarrow> Inr (\<lambda>m. m\<lparr>m_last_visit := t\<rparr>))
      else if fst kv = ''total_visits''
      then (case as_integer (snd kv) of Inl e \<Rightarrow> Inl e | Inr n \<Rightarrow> Inr (\<lambda>m. m\<lparr>m_total_visits := n\<rparr>))
      else if fst kv = ''updated_at''
      then (case as_timestamptz (snd kv) of Inl e \<Rightarrow> Inl e | Inr t \<Rightarrow> Inr (\<lambda>m. m\<lparr>m_updated_at := t\<rparr>))
      else Inl undefined_column)"

fun set_list :: "(string \<times> json) list \<Rightarrow> sql_error + (member \<Rightarrow> member)" where
  "set_list [] = Inr (\<lambda>m. m)"
| "set_list (kv # kvs) =
     (case set_column kv of
        Inl e \<Rightarrow> Inl e
      | Inr f \<Rightarrow> (case set_list kvs of Inl e \<Rightarrow> Inl e | Inr g \<Rightarrow> Inr (\<lambda>m. g (f m))))"

text \<open>
  \<^verbatim>\<open>supabase.from('members').update(values).eq('id', mid)\<close>: one
  \<^verbatim>\<open>UPDATE members SET ... WHERE id = mid\<close> with the columns of \<open>values\<close>, rejected as
  a whole when a value does not fit its column.
\<close>

definition patch_members ::
  "timestamptz \<Rightarrow> uuid \<Rightarrow> (string \<times> json) list \<Rightarrow> db \<Rightarrow> sql_error + db" where
  "patch_members now mid values d =
     (case set_list values of
        Inl e \<Rightarrow> Inl e
      | Inr f \<Rightarrow> update_members now (\<lambda>m. m_id m = mid) f d)"

subsection \<open>membersService.checkIn\<close>

text \<open>
  The clocks of one call: the three \<^verbatim>\<open>new Date()\<close> of the client and the
  \<^verbatim>\<open>NOW()\<close> of the two statements. \<open>fresh\<close> below is the id that
  \<^verbatim>\<open>uuid_generate_v4()\<close> gives the visit row.
\<close>

record checkIn_clock =
  js_check_in :: timestamptz
  db_insert_now :: timestamptz
  js_last_visit :: timestamptz
  js_updated_at :: timestamptz
  db_update_now :: timestamptz

text \<open>
  The error of the insert is thrown; the result of the update of \<^verbatim>\<open>members\<close> is
  not looked at. The value sent for \<^verbatim>\<open>total_visits\<close> is the request object of
  \<^verbatim>\<open>supabase.rpc('increment_visits', { member_id: memberId })\<close>, which is never
  awaited.
\<close>

definition checkIn ::
  "checkIn_clock \<Rightarrow> uuid \<Rightarrow> uuid \<Rightarrow> uuid \<Rightarrow> db \<Rightarrow> sql_error + (member_visit \<times> db)" where
  "checkIn clk fresh memberId gymId d =
     (let row = \<lparr>v_id = fresh, v_member_id = memberId, v_gym_id = gymId,
                 v_check_in = Some (js_check_in clk), v_check_out = None,
                 v_created_at = Some (db_insert_now clk)\<rparr>
      in case insert_member_visit (db_insert_now clk) row d of
           Inl e \<Rightarrow> Inl e
         | Inr d1 \<Rightarrow>
             (case patch_members (db_update_now clk) memberId
                     [(''last_visit'', JTimestamp (js_last_visit clk)),
                      (''total_visits'', rpc_request ''increment_visits'' [(''member_id'', memberId)]),
                      (''updated_at'', JTimestamp (js_updated_at clk))] d1 of
                Inl e \<Rightarrow> Inr (row, d1)
              | Inr d2 \<Rightarrow> Inr (row, d2)))"

subsection \<open>sessionsService.addParticipant and removeParticipant\<close>

definition addParticipant ::
  "timestamptz \<Rightarrow> uuid \<Rightarrow> uuid \<Rightarrow> uuid \<Rightarrow> db \<Rightarrow> sql_error + (session_participant \<times> db)" where
  "addParticipant now fresh sessionId memberId d =
     (let row = \<lparr>sp_id = fresh, sp_session_id = sessionId, sp_member_id = memberId\<rparr>
      in if list_ex (\<lambda>r. sp_session_id r = sessionId \<and> sp_member_id r = memberId)
              (session_participants d) \<or> fresh \<in> set (map sp_id (session_participants d))
         then Inl unique_violation
         else if sessionId \<notin> set (map s_id (sessions d)) \<or> memberId \<notin> set (map m_id (members d))
         then Inl foreign_key_violation
         else (let d1 = d\<lparr>session_participants := session_participants d @ [row]\<rparr>
               in case rpc now ''increment_session_participants'' [(''session_id'', sessionId)] d1 of
                    Inl e \<Rightarrow> Inr (row, d1)
                  | Inr d2 \<Rightarrow> Inr (row, d2)))"

definition removeParticipant :: "timestamptz \<Rightarrow> uuid \<Rightarrow> uuid \<Rightarrow> db \<Rightarrow> sql_error + db" where
  "removeParticipant now sessionId memberId d =
     (let d1 = d\<lparr>session_participants :=
                   filter (\<lambda>r. \<not> (sp_session_id r = sessionId \<and> sp_member_id r = memberId))
                     (session_participants d)\<rparr>
      in case rpc now ''decrement_session_participants'' [(''session_id'', sessionId)] d1 of
           Inl e \<Rightarrow> Inr d1
         | Inr d2 \<Rightarrow> Inr d2)"

subsection \<open>Reads of the client library\<close>

text \<open>
  An awaited query resolves to an object with the rows or an error; the promise of a
  query can also be rejected. The rows of a read are an input of the functions below: the
  query itself runs in the database. A \<^verbatim>\<open>Date\<close> is the instant it denotes, so
  \<^verbatim>\<open>new Date(p.paid_date)\<close> is the value of the column.
\<close>

datatype js_error = PostgrestError string | TypeError | Rejection string

record 'a response =
  data :: "'a list option"
  error :: "string option"

datatype 'a settled = fulfilled 'a | rejected js_error

text \<open>A read that succeeded with the given rows.\<close>

definition ok :: "'a list \<Rightarrow> 'a response settled" where
  "ok rows = fulfilled \<lparr>data = Some rows, error = None\<rparr>"

text \<open>A read that failed: its promise was rejected, or it resolved with an error.\<close>

definition read_failed :: "'a response settled \<Rightarrow> bool" where
  "read_failed r = (case r of rejected e \<Rightarrow> True | fulfilled resp \<Rightarrow> error resp \<noteq> None)"

definition is_rejected :: "'a settled \<Rightarrow> bool" where
  "is_rejected r = (case r of rejected e \<Rightarrow> True | fulfilled x \<Rightarrow> False)"

definition rejection :: "'a settled \<Rightarrow> js_error option" where
  "rejection r = (case r of rejected e \<Rightarrow> Some e | fulfilled x \<Rightarrow> None)"

text \<open>\<^verbatim>\<open>r.data || []\<close>.\<close>

definition data_or_empty :: "'a response \<Rightarrow> 'a list" where
  "data_or_empty r = (case data r of None \<Rightarrow> [] | Some rows \<Rightarrow> rows)"

subsection \<open>JavaScript numbers\<close>

text \<open>
  A \<^verbatim>\<open>DECIMAL\<close> column reaches the services as a JavaScript number, and the services
  add numbers with the \<^verbatim>\<open>+\<close> of JavaScript, a floating-point addition that rounds
  (19.99 + 9.99 is 29.979999999999997). The type \<open>'n\<close> of the numbers and its operations
  are parameters of the services: \<open>num_zero\<close> is the literal \<^verbatim>\<open>0\<close>, \<open>num_plus\<close> is
  \<^verbatim>\<open>+\<close>, and \<open>num_falsy\<close> holds of the numbers that count as false in
  \<^verbatim>\<open>x || 0\<close> (0, -0 and NaN).
\<close>

record 'n number_ops =
  num_zero :: 'n
  num_plus :: "'n \<Rightarrow> 'n \<Rightarrow> 'n"
  num_falsy :: "'n \<Rightarrow> bool"

text \<open>\<^verbatim>\<open>x || 0\<close> for a number or null \<open>x\<close>.\<close>

definition num_or :: "'n number_ops \<Rightarrow> 'n option \<Rightarrow> 'n" where
  "num_or ops x =
     (case x of None \<Rightarrow> num_zero ops
      | Some v \<Rightarrow> if num_falsy ops v then num_zero ops else v)"

text \<open>
  On numbers that are integers, and as long as no sum leaves the range in which every
  integer is a number (magnitude below \<open>2 ^ 53\<close>), \<^verbatim>\<open>+\<close> is the addition of integers.
  The examples use such numbers.
\<close>

definition integer_numbers :: "int number_ops" where
  "integer_numbers = \<lparr>num_zero = 0, num_plus = (\<lambda>a b. a + b), num_falsy = (\<lambda>a. a = 0)\<rparr>"

subsection \<open>Rows of the reads\<close>

text \<open>The columns that the services select and read; an amount is a number.\<close>

record 'n member_row =
  mr_id :: uuid
  mr_activity_status :: "activity_status option"
  mr_monthly_fee :: "'n option"

record 'n payment =
  p_id :: uuid
  p_gym_id :: uuid
  p_amount :: 'n
  p_status :: "payment_status option"
  p_paid_date :: "timestamptz option"

subsection \<open>Payment aggregation\<close>

text \<open>\<^verbatim>\<open>p.status === 'paid' && p.paid_date && new Date(p.paid_date) >= startOfMonth\<close>.\<close>

definition paid_since :: "timestamptz \<Rightarrow> 'n payment \<Rightarrow> bool" where
  "paid_since startOfMonth p =
     (p_status p = Some paid \<and>
      (case p_paid_date p of None \<Rightarrow> False | Some t \<Rightarrow> startOfMonth \<le> t))"

text \<open>\<^verbatim>\<open>.reduce((sum, p) => sum + (p.amount || 0), 0)\<close>.\<close>

definition sum_amount :: "'n number_ops \<Rightarrow> 'n payment list \<Rightarrow> 'n" where
  "sum_amount ops ps =
     foldl (\<lambda>sum p. num_plus ops sum (num_or ops (Some (p_amount p)))) (num_zero ops) ps"

record 'n payment_stats =
  stats_revenueThisMonth :: 'n
  stats_pendingAmount :: 'n
  stats_overdueAmount :: 'n
  stats_totalPaid :: 'n

text \<open>\<^verbatim>\<open>paymentsService.getStats\<close>; \<open>startOfMonth\<close> is local midnight of day 1 of the
  current month, as the \<^verbatim>\<open>Date\<close> setters compute it.\<close>

definition getStats ::
  "'n number_ops \<Rightarrow> timestamptz \<Rightarrow> 'n payment response settled \<Rightarrow> js_error + 'n payment_stats" where
  "getStats ops startOfMonth r =
     (case r of
        rejected e \<Rightarrow> Inl e
      | fulfilled resp \<Rightarrow>
          (case error resp of
             Some e \<Rightarrow> Inl (PostgrestError e)
           | None \<Rightarrow>
               (case data resp of
                  None \<Rightarrow> Inl TypeError
                | Some allPayments \<Rightarrow>
                    Inr \<lparr>stats_revenueThisMonth =
                           sum_amount ops (filter (paid_since startOfMonth) allPayments),
                         stats_pendingAmount =
                           sum_amount ops (filter (\<lambda>p. p_status p = Some pending) allPayments),
                         stats_overdueAmount =
                           sum_amount ops (filter (\<lambda>p. p_status p = Some overdue) allPayments),
                         stats_totalPaid =
                           sum_amount ops (filter (\<lambda>p. p_status p = Some paid) allPayments)\<rparr>)))"

subsection \<open>Revenue by month\<close>

text \<open>\<^verbatim>\<open>String(n)\<close> for an integer and \<^verbatim>\<open>padStart(n, c)\<close> with a pad of one
  character.\<close>

fun digits :: "nat \<Rightarrow> string" where
  "digits n = (if n < 10 then [''0123456789'' ! n]
               else digits (n div 10) @ [''0123456789'' ! (n mod 10)])"

definition String_of :: "int \<Rightarrow> string" where
  "String_of i = (if i < 0 then CHR ''-'' # digits (nat (- i)) else digits (nat i))"

definition padStart :: "nat \<Rightarrow> char \<Rightarrow> string \<Rightarrow> string" where
  "padStart n c s = replicate (n - length s) c @ s"

text \<open>
  The key of a bucket. \<open>getFullYear\<close> and \<open>getMonth\<close> are the methods of
  \<^verbatim>\<open>Date\<close>, the calendar year and the month from 0 in local time; they are
  parameters here.
\<close>

definition month_key :: "(timestamptz \<Rightarrow> int) \<Rightarrow> (timestamptz \<Rightarrow> nat) \<Rightarrow> timestamptz \<Rightarrow> string" where
  "month_key getFullYear getMonth date =
     String_of (getFullYear date) @ ''-'' @ padStart 2 CHR ''0'' (String_of (int (getMonth date) + 1))"

text \<open>The body of the \<^verbatim>\<open>forEach\<close>.\<close>

definition add_payment ::
  "'n number_ops \<Rightarrow> (timestamptz \<Rightarrow> int) \<Rightarrow> (timestamptz \<Rightarrow> nat) \<Rightarrow> (string \<rightharpoonup> 'n) \<Rightarrow> 'n payment
    \<Rightarrow> (string \<rightharpoonup> 'n)" where
  "add_payment ops getFullYear getMonth revenueByMonth payment =
     (case p_paid_date payment of
        None \<Rightarrow> revenueByMonth
      | Some date \<Rightarrow>
          (let key = month_key getFullYear getMonth date
           in revenueByMonth(key \<mapsto>
                num_plus ops (num_or ops (revenueByMonth key))
                             (num_or ops (Some (p_amount payment))))))"

text \<open>
  The query of \<^verbatim>\<open>getRevenueByMonth\<close>: the paid payments of the gym with
  \<^verbatim>\<open>paid_date >= startDate\<close>, in the order of \<^verbatim>\<open>paid_date\<close>. A null
  \<^verbatim>\<open>paid_date\<close> does not pass the comparison.
\<close>

definition revenue_rows :: "uuid \<Rightarrow> timestamptz \<Rightarrow> 'n payment list \<Rightarrow> 'n payment list" where
  "revenue_rows gymId startDate ps =
     map snd (sort_key fst
       (List.map_filter
          (\<lambda>p. case p_paid_date p of
                  None \<Rightarrow> None
                | Some t \<Rightarrow> if p_gym_id p = gymId \<and> p_status p = Some paid \<and> startDate \<le> t
                            then Some (t, p) else None) ps))"

definition getRevenueByMonth ::
  "'n number_ops \<Rightarrow> (timestamptz \<Rightarrow> int) \<Rightarrow> (timestamptz \<Rightarrow> nat) \<Rightarrow> 'n payment response settled
    \<Rightarrow> js_error + (string \<rightharpoonup> 'n)" where
  "getRevenueByMonth ops getFullYear getMonth r =
     (case r of
        rejected e \<Rightarrow> Inl e
      | fulfilled resp \<Rightarrow>
          (case error resp of
             Some e \<Rightarrow> Inl (PostgrestError e)
           | None \<Rightarrow>
               (case data resp of
                  None \<Rightarrow> Inl TypeError
                | Some rows \<Rightarrow>
                    Inr (foldl (add_payment ops getFullYear getMonth) Map.empty rows))))"

subsection \<open>dashboardService.getOverview\<close>

text \<open>The three instants that the \<^verbatim>\<open>Date\<close> setters compute from the clock: local
  midnight of day 1 of the month, of today and of tomorrow.\<close>

record overview_clock =
  startOfMonth :: timestamptz
  today :: timestamptz
  tomorrow :: timestamptz

record 'n overview =
  totalMembers :: nat
  activeMembers :: nat
  moderateMembers :: nat
  inactiveMembers :: nat
  totalCoaches :: nat
  activeCoaches :: nat
  mrr :: 'n
  revenueThisMonth :: 'n
  pendingPayments :: nat
  overduePayments :: nat
  overdueAmount :: 'n
  todaySessionsCount :: nat
  totalSessions :: nat
  alerts :: "alert list"

text \<open>The snapshot that \<^verbatim>\<open>getOverview\<close> builds once the five reads have resolved.\<close>

definition snapshot ::
  "'n number_ops \<Rightarrow> overview_clock \<Rightarrow> 'n member_row response \<Rightarrow> coach response
    \<Rightarrow> 'n payment response \<Rightarrow> session response \<Rightarrow> alert response \<Rightarrow> 'n overview" where
  "snapshot ops clk membersR coachesR paymentsR sessionsR alertsR =
     (let membersData = data_or_empty membersR;
          coachesData = data_or_empty coachesR;
          paymentsData = data_or_empty paymentsR;
          sessionsData = data_or_empty sessionsR;
          mrr' = foldl (\<lambda>sum m. num_plus ops sum (num_or ops (mr_monthly_fee m)))
                   (num_zero ops) membersData;
          revenueThisMonth' = sum_amount ops (filter (paid_since (startOfMonth clk)) paymentsData);
          todaySessions =
            filter (\<lambda>s. today clk \<le> s_start_time s \<and> s_start_time s < tomorrow clk) sessionsData
      in \<lparr>totalMembers = length membersData,
          activeMembers = length (filter (\<lambda>m. mr_activity_status m = Some active) membersData),
          moderateMembers = length (filter (\<lambda>m. mr_activity_status m = Some moderate) membersData),
          inactiveMembers = length (filter (\<lambda>m. mr_activity_status m = Some inactive) membersData),
          totalCoaches = length coachesData,
          activeCoaches = length (filter (\<lambda>c. c_is_active c = Some True) coachesData),
          mrr = mrr',
          revenueThisMonth = revenueThisMonth',
          pendingPayments = length (filter (\<lambda>p. p_status p = Some pending) paymentsData),
          overduePayments = length (filter (\<lambda>p. p_status p = Some overdue) paymentsData),
          overdueAmount = sum_amount ops (filter (\<lambda>p. p_status p = Some overdue) paymentsData),
          todaySessionsCount = length todaySessions,
          totalSessions = length sessionsData,
          alerts = data_or_empty alertsR\<rparr>)"

text \<open>
  What \<^verbatim>\<open>await Promise.all([...])\<close> throws: the rejection of the read that is
  rejected first in time. \<open>order\<close> lists the reads, numbered from 0 as in the array, in the
  order in which they settle; \<open>rs\<close> holds the rejection of each read, if any. Where
  \<open>order\<close> names no rejected read, the given rejection \<open>e\<close> stands.
\<close>

definition thrown :: "nat list \<Rightarrow> js_error option list \<Rightarrow> js_error \<Rightarrow> js_error" where
  "thrown order rs e =
     (case List.map_filter (\<lambda>i. if i < length rs then rs ! i else None) order of
        [] \<Rightarrow> e
      | e' # es \<Rightarrow> e')"

text \<open>
  \<^verbatim>\<open>getOverview\<close>: it fails when one of the five promises is rejected, and no
  \<^verbatim>\<open>error\<close> field of a resolved read is looked at.
\<close>

definition getOverview ::
  "'n number_ops \<Rightarrow> overview_clock \<Rightarrow> nat list \<Rightarrow> 'n member_row response settled
    \<Rightarrow> coach response settled \<Rightarrow> 'n payment response settled \<Rightarrow> session response settled
    \<Rightarrow> alert response settled \<Rightarrow> js_error + 'n overview" where
  "getOverview ops clk order r1 r2 r3 r4 r5 =
     (let throw = (\<lambda>e. Inl (thrown order
                      [rejection r1, rejection r2, rejection r3, rejection r4, rejection r5] e))
      in case r1 of rejected e \<Rightarrow> throw e | fulfilled membersR \<Rightarrow>
        (case r2 of rejected e \<Rightarrow> throw e | fulfilled coachesR \<Rightarrow>
        (case r3 of rejected e \<Rightarrow> throw e | fulfilled paymentsR \<Rightarrow>
        (case r4 of rejected e \<Rightarrow> throw e | fulfilled sessionsR \<Rightarrow>
        (case r5 of rejected e \<Rightarrow> throw e | fulfilled alertsR \<Rightarrow>
           Inr (snapshot ops clk membersR coachesR paymentsR sessionsR alertsR))))))"

subsection \<open>The sums as the specification words them\<close>

text \<open>The sum of \<^verbatim>\<open>amount\<close> over the payments with status paid and \<^verbatim>\<open>paid_date\<close>
  in the half-open interval from the first of the month to now, the amounts added from the
  left with the addition of the numbers.\<close>

definition spec_revenueThisMonth ::
  "'n number_ops \<Rightarrow> timestamptz \<Rightarrow> timestamptz \<Rightarrow> 'n payment list \<Rightarrow> 'n" where
  "spec_revenueThisMonth ops first_of_month now ps =
     foldl (num_plus ops) (num_zero ops)
       (map p_amount
          (filter (\<lambda>p. p_status p = Some paid \<and>
                       (case p_paid_date p of None \<Rightarrow> False
                        | Some t \<Rightarrow> first_of_month \<le> t \<and> t < now)) ps))"

text \<open>The sum of the monthly fees of the members whose \<^verbatim>\<open>activity_status\<close> is
  active, added in the same way.\<close>

definition spec_mrr :: "'n number_ops \<Rightarrow> 'n member_row list \<Rightarrow> 'n" where
  "spec_mrr ops ms =
     foldl (num_plus ops) (num_zero ops)
       (map (\<lambda>m. case mr_monthly_fee m of None \<Rightarrow> num_zero ops | Some fee \<Rightarrow> fee)
          (filter (\<lambda>m. mr_activity_status m = Some active) ms))"

subsection \<open>Example data\<close>

definition example_sessions :: db where
  "example_sessions =
     \<lparr>coaches = [], members = [], member_visits = [],
      sessions = [\<lparr>s_id = ''s1'', s_gym_id = ''g1'', s_start_time = 0,
                    s_current_participants = Some 0, s_updated_at = None\<rparr>,
                  \<lparr>s_id = ''s2'', s_gym_id = ''g1'', s_start_time = 0,
                    s_current_participants = Some 3, s_updated_at = None\<rparr>],
      session_participants = []\<rparr>"

text \<open>A gym with two coaches and three members; both counters agree with the members.\<close>

definition example_gym :: db where
  "example_gym =
     \<lparr>coaches = [\<lparr>c_id = ''c1'', c_gym_id = ''g1'', c_is_active = Some True,
                   c_client_count = Some 2, c_updated_at = None\<rparr>,
                 \<lparr>c_id = ''c2'', c_gym_id = ''g1'', c_is_active = Some True,
                   c_client_count = Some 0, c_updated_at = None\<rparr>],
      members = [\<lparr>m_id = ''m1'', m_gym_id = ''g1'', m_coach_id = Some ''c1'',
                   m_monthly_fee = Some 4900, m_activity_status = Some active,
                   m_last_visit = None, m_total_visits = Some 0, m_updated_at = None\<rparr>,
                 \<lparr>m_id = ''m2'', m_gym_id = ''g1'', m_coach_id = Some ''c1'',
                   m_monthly_fee = Some 2900, m_activity_status = Some inactive,
                   m_last_visit = Some 1000, m_total_visits = Some 7, m_updated_at = None\<rparr>,
                 \<lparr>m_id = ''m3'', m_gym_id = ''g1'', m_coach_id = None,
                   m_monthly_fee = None, m_activity_status = Some moderate,
                   m_last_visit = Some 2000, m_total_visits = Some 1, m_updated_at = None\<rparr>],
      member_visits = [], sessions = [], session_participants = []\<rparr>"

definition example_clock :: checkIn_clock where
  "example_clock =
     \<lparr>js_check_in = 5000, db_insert_now = 5001, js_last_visit = 5002,
      js_updated_at = 5003, db_update_now = 5004\<rparr>"

text \<open>The rows that the dashboard reads of the three members of the example gym, with
  fees of 49 and 29 and no fee: only the first member is active.\<close>

definition example_member_rows :: "int member_row list" where
  "example_member_rows =
     [\<lparr>mr_id = ''m1'', mr_activity_status = Some active, mr_monthly_fee = Some 49\<rparr>,
      \<lparr>mr_id = ''m2'', mr_activity_status = Some inactive, mr_monthly_fee = Some 29\<rparr>,
      \<lparr>mr_id = ''m3'', mr_activity_status = Some moderate, mr_monthly_fee = None\<rparr>]"

text \<open>Payments of one month: one paid in the month, one pending, one overdue, one paid
  with no \<^verbatim>\<open>paid_date\<close>, and one paid and dated after \<open>now = 2000\<close>; the month starts
  at 1000.\<close>

definition example_payments :: "int payment list" where
  "example_payments =
     [\<lparr>p_id = ''p1'', p_gym_id = ''g1'', p_amount = 100, p_status = Some paid,
        p_paid_date = Some 1500\<rparr>,
      \<lparr>p_id = ''p2'', p_gym_id = ''g1'', p_amount = 50, p_status = Some pending,
        p_paid_date = None\<rparr>,
      \<lparr>p_id = ''p3'', p_gym_id = ''g1'', p_amount = 30, p_status = Some overdue,
        p_paid_date = None\<rparr>,
      \<lparr>p_id = ''p4'', p_gym_id = ''g1'', p_amount = 7, p_status = Some paid,
        p_paid_date = None\<rparr>,
      \<lparr>p_id = ''p5'', p_gym_id = ''g1'', p_amount = 9, p_status = Some paid,
        p_paid_date = Some 2500\<rparr>]"

definition example_overview_clock :: overview_clock where
  "example_overview_clock = \<lparr>startOfMonth = 1000, today = 1900, tomorrow = 2100\<rparr>"

section \<open>Properties\<close>

subsection \<open>Frame lemmas of the member triggers\<close>

lemma members_recount: "members (recount now cid d) = members d"
  by (simp add: recount_def)

lemma members_update_coach_client_count:
  "members (update_coach_client_count now ev d) = members d"
  by (cases ev) (simp_all add: members_recount Let_def split: option.splits)

lemma members_foldl_trigger:
  "members (foldl (\<lambda>acc old. update_coach_client_count now (ev old) acc) d xs) = members d"
  by (induction xs arbitrary: d) (simp_all add: members_update_coach_client_count)

lemma members_update_members:
  assumes "update_members now P f d = Inr d'"
  shows "members d' = map (\<lambda>m. if P m then update_updated_at now (f m) else m) (members d)"
proof -
  let ?set_row = "\<lambda>m. update_updated_at now (f m)"
  let ?d1 = "d\<lparr>members := map (\<lambda>m. if P m then ?set_row m else m) (members d)\<rparr>"
  from assms have "d' = foldl (\<lambda>acc old. update_coach_client_count now (TG_UPDATE old (?set_row old)) acc)
                         ?d1 (filter P (members d))"
    by (simp only: update_members_def Let_def sum.inject sum.distinct split: if_splits)
  then have "members d' = members ?d1"
    by (simp only: members_foldl_trigger [where ev = "\<lambda>old. TG_UPDATE old (?set_row old)"])
  then show ?thesis by simp
qed

lemma update_member_activity_status_total:
  "\<exists>d'. update_member_activity_status now new d = Inr d'"
  by (simp add: update_member_activity_status_def update_members_def Let_def
      update_updated_at_def list_all_iff)

lemma members_update_member_activity_status:
  assumes "update_member_activity_status now new d = Inr d'"
  shows "members d' =
           map (\<lambda>m. if m_id m = v_member_id new
                     then m\<lparr>m_activity_status := Some (activity_case now (m_last_visit m)),
                            m_updated_at := Some now\<rparr>
                     else m) (members d)"
  using members_update_members [OF assms [unfolded update_member_activity_status_def]]
  by (simp add: update_updated_at_def)

lemma activity_case_None: "activity_case now None = inactive"
  by (simp add: activity_case_def sql_ge_def is_true_def)

lemma activity_case_Some:
  "activity_case now (Some v) =
     (if now - v \<le> interval_days 7 then active
      else if now - v \<le> interval_days 30 then moderate else inactive)"
  by (auto simp add: activity_case_def sql_ge_def is_true_def)

text \<open>
  C1. The status that \<^verbatim>\<open>update_member_activity_status\<close> stores for the visiting member
  is the \<^verbatim>\<open>CASE\<close> of the member's \<^verbatim>\<open>last_visit\<close> \<open>v\<close>: \<open>active\<close> exactly when
  \<open>now - v\<close> is at most 7 days, \<open>moderate\<close> exactly when it is more than 7 and at most
  30 days, \<open>inactive\<close> exactly when it is more than 30 days, and \<open>inactive\<close> when
  \<open>last_visit\<close> is null. The trigger function always returns.
\<close>

theorem activity_status_classification:
  "(\<exists>d'. update_member_activity_status now new d = Inr d' \<and>
         members d' =
           map (\<lambda>m. if m_id m = v_member_id new
                     then m\<lparr>m_activity_status := Some (activity_case now (m_last_visit m)),
                            m_updated_at := Some now\<rparr>
                     else m) (members d)) \<and>
   activity_case now None = inactive \<and>
   (activity_case now (Some v) = active \<longleftrightarrow> now - v \<le> interval_days 7) \<and>
   (activity_case now (Some v) = moderate \<longleftrightarrow>
      interval_days 7 < now - v \<and> now - v \<le> interval_days 30) \<and>
   (activity_case now (Some v) = inactive \<longleftrightarrow> interval_days 30 < now - v)"
proof -
  have days: "interval_days 7 \<le> interval_days 30"
    by (simp add: interval_days_def)
  have "\<exists>d'. update_member_activity_status now new d = Inr d' \<and>
         members d' =
           map (\<lambda>m. if m_id m = v_member_id new
                     then m\<lparr>m_activity_status := Some (activity_case now (m_last_visit m)),
                            m_updated_at := Some now\<rparr>
                     else m) (members d)"
    using update_member_activity_status_total [of now new d]
      members_update_member_activity_status [of now new d] by blast
  moreover have "activity_case now None = inactive"
    by (rule activity_case_None)
  moreover have "activity_case now (Some v) = active \<longleftrightarrow> now - v \<le> interval_days 7"
    by (simp add: activity_case_Some)
  moreover have "activity_case now (Some v) = moderate \<longleftrightarrow>
      interval_days 7 < now - v \<and> now - v \<le> interval_days 30"
    by (simp add: activity_case_Some)
  moreover have "activity_case now (Some v) = inactive \<longleftrightarrow> interval_days 30 < now - v"
    using days by (simp add: activity_case_Some)
  ultimately show ?thesis by blast
qed

text \<open>The examples of the specification: 3, 20 and 45 days before \<open>now\<close>, and at the two
  boundaries.\<close>

theorem activity_status_classification_witness:
  "activity_case (interval_days 100) (Some (interval_days 97)) = active \<and>
   activity_case (interval_days 100) (Some (interval_days 80)) = moderate \<and>
   activity_case (interval_days 100) (Some (interval_days 55)) = inactive \<and>
   activity_case (interval_days 100) (Some (interval_days 93)) = active \<and>
   activity_case (interval_days 100) (Some (interval_days 70)) = moderate \<and>
   activity_case (interval_days 100) None = inactive"
  using activity_status_classification [of "interval_days 100" _ _ "interval_days 97"]
    activity_status_classification [of "interval_days 100" _ _ "interval_days 80"]
    activity_status_classification [of "interval_days 100" _ _ "interval_days 55"]
    activity_status_classification [of "interval_days 100" _ _ "interval_days 93"]
    activity_status_classification [of "interval_days 100" _ _ "interval_days 70"]
  by (simp add: interval_days_def)

subsection \<open>Session participant counter\<close>

lemma map_rows_total:
  "(\<And>x. x \<in> set xs \<Longrightarrow> f x = Inr (g x)) \<Longrightarrow> map_rows f xs = Inr (map g xs)"
  by (induction xs) simp_all

lemma map_rows_Inl:
  "map_rows f xs = Inl e \<Longrightarrow> \<exists>x \<in> set xs. f x = Inl e"
  by (induction xs) (auto split: sum.splits)

lemma map_rows_Inr:
  "map_rows f xs = Inr ys \<Longrightarrow> y \<in> set ys \<Longrightarrow> \<exists>x \<in> set xs. f x = Inr y"
  by (induction xs arbitrary: ys) (auto split: sum.splits)

lemma decrement_row:
  assumes "s_current_participants s = Some n" "0 \<le> n" "n \<le> 2147483647"
  shows "(case int4_plus (s_current_participants s) (- 1) of
            Inl e \<Rightarrow> Inl e
          | Inr k \<Rightarrow> Inr (s\<lparr>s_current_participants := greatest 0 k, s_updated_at := Some now\<rparr>))
         = Inr (s\<lparr>s_current_participants := Some (max 0 (n - 1)), s_updated_at := Some now\<rparr>)"
  using assms by (simp add: int4_plus_def int4_def greatest_def)

lemma decrement_sessions:
  assumes "participants_nonneg d"
  shows "decrement_session_participants now sid d =
           Inr (d\<lparr>sessions :=
                  map (\<lambda>s. if s_id s = sid
                            then s\<lparr>s_current_participants :=
                                     map_option (\<lambda>n. max 0 (n - 1)) (s_current_participants s),
                                   s_updated_at := Some now\<rparr>
                            else s) (sessions d)\<rparr>)"
proof -
  let ?f = "\<lambda>s. if s_id s = sid
                   then (case int4_plus (s_current_participants s) (- 1) of
                           Inl e \<Rightarrow> Inl e
                         | Inr n \<Rightarrow> Inr (s\<lparr>s_current_participants := greatest 0 n,
                                           s_updated_at := Some now\<rparr>))
                   else Inr s"
  let ?g = "\<lambda>s. if s_id s = sid
                            then s\<lparr>s_current_participants :=
                                     map_option (\<lambda>n. max 0 (n - 1)) (s_current_participants s),
                                   s_updated_at := Some now\<rparr>
                            else s"
  have "?f s = Inr (?g s)" if "s \<in> set (sessions d)" for s
  proof -
    from assms that obtain n where n: "s_current_participants s = Some n" "0 \<le> n" "n \<le> 2147483647"
      by (auto simp add: participants_nonneg_def list_all_iff split: option.splits)
    show ?thesis using decrement_row [OF n, of now] n by simp
  qed
  then have "map_rows ?f (sessions d) = Inr (map ?g (sessions d))"
    by (rule map_rows_total)
  then show ?thesis
    by (simp add: decrement_session_participants_def)
qed

lemma increment_row_cases:
  assumes "0 \<le> n" "n \<le> 2147483647"
  shows "int4_plus (Some n) 1 =
           (if n = 2147483647 then Inl numeric_value_out_of_range else Inr (Some (n + 1)))"
  using assms by (simp add: int4_plus_def int4_def)

text \<open>
  C10. In a state where every session counter is non-negative,
  \<^verbatim>\<open>decrement_session_participants\<close> returns and sets the counter of the session to
  \<open>max 0 (n - 1)\<close>, and the state it leaves has every counter non-negative again;
  \<^verbatim>\<open>increment_session_participants\<close> either returns a state with every counter
  non-negative, or fails on the overflow of a counter at \<open>2147483647\<close>, changing nothing.
\<close>

theorem participants_never_negative:
  assumes "participants_nonneg d"
  shows "(\<exists>d'. decrement_session_participants now sid d = Inr d' \<and>
            sessions d' =
              map (\<lambda>s. if s_id s = sid
                        then s\<lparr>s_current_participants :=
                                 map_option (\<lambda>n. max 0 (n - 1)) (s_current_participants s),
                               s_updated_at := Some now\<rparr>
                        else s) (sessions d) \<and>
            participants_nonneg d') \<and>
         (case increment_session_participants now sid d of
            Inr d' \<Rightarrow> participants_nonneg d'
          | Inl e \<Rightarrow> e = numeric_value_out_of_range \<and>
              list_ex (\<lambda>s. s_id s = sid \<and> s_current_participants s = Some 2147483647) (sessions d))"
proof (intro conjI)
  let ?g = "\<lambda>s. if s_id s = sid
                        then s\<lparr>s_current_participants :=
                                 map_option (\<lambda>n. max 0 (n - 1)) (s_current_participants s),
                               s_updated_at := Some now\<rparr>
                        else s"
  have "case s_current_participants y of None \<Rightarrow> False | Some k \<Rightarrow> 0 \<le> k \<and> k \<le> 2147483647"
    if "y \<in> set (map ?g (sessions d))" for y
  proof -
    from that obtain s where s: "s \<in> set (sessions d)" "y = ?g s"
      by auto
    from assms s(1) obtain n where "s_current_participants s = Some n" "0 \<le> n" "n \<le> 2147483647"
      by (auto simp add: participants_nonneg_def list_all_iff split: option.splits)
    with s(2) show ?thesis by simp
  qed
  then have "participants_nonneg (d\<lparr>sessions := map ?g (sessions d)\<rparr>)"
    unfolding participants_nonneg_def list_all_iff by simp
  then show "\<exists>d'. decrement_session_participants now sid d = Inr d' \<and>
            sessions d' = map ?g (sessions d) \<and> participants_nonneg d'"
    by (simp add: decrement_sessions [OF assms])
next
  let ?f = "\<lambda>s. if s_id s = sid
                   then (case int4_plus (s_current_participants s) 1 of
                           Inl e \<Rightarrow> Inl e
                         | Inr n \<Rightarrow> Inr (s\<lparr>s_current_participants := n, s_updated_at := Some now\<rparr>))
                   else Inr s"
  have rows: "\<exists>n. s_current_participants s = Some n \<and> 0 \<le> n \<and> n \<le> 2147483647"
    if "s \<in> set (sessions d)" for s
    using assms that
    by (auto simp add: participants_nonneg_def list_all_iff split: option.splits)
  show "case increment_session_participants now sid d of
            Inr d' \<Rightarrow> participants_nonneg d'
          | Inl e \<Rightarrow> e = numeric_value_out_of_range \<and>
              list_ex (\<lambda>s. s_id s = sid \<and> s_current_participants s = Some 2147483647) (sessions d)"
  proof (cases "map_rows ?f (sessions d)")
    case (Inl e)
    then obtain s where s: "s \<in> set (sessions d)" "?f s = Inl e"
      using map_rows_Inl by blast
    from rows [OF s(1)] obtain n where n: "s_current_participants s = Some n" "0 \<le> n" "n \<le> 2147483647"
      by blast
    from s(2) n have "s_id s = sid \<and> n = 2147483647 \<and> e = numeric_value_out_of_range"
      by (auto simp add: increment_row_cases [OF n(2,3)] split: if_splits)
    with s(1) n(1) have "e = numeric_value_out_of_range \<and>
        list_ex (\<lambda>s. s_id s = sid \<and> s_current_participants s = Some 2147483647) (sessions d)"
      by (auto simp add: list_ex_iff)
    with Inl show ?thesis
      by (simp add: increment_session_participants_def)
  next
    case (Inr ys)
    have "\<exists>k. s_current_participants y = Some k \<and> 0 \<le> k \<and> k \<le> 2147483647"
      if y: "y \<in> set ys" for y
    proof -
      from map_rows_Inr [OF Inr y] obtain s where s: "s \<in> set (sessions d)" "?f s = Inr y"
        by blast
      from rows [OF s(1)] obtain n where n: "s_current_participants s = Some n" "0 \<le> n" "n \<le> 2147483647"
        by blast
      from s(2) n show ?thesis
        by (auto simp add: increment_row_cases [OF n(2,3)] split: if_splits)
    qed
    then have "participants_nonneg (d\<lparr>sessions := ys\<rparr>)"
      by (fastforce simp add: participants_nonneg_def list_all_iff)
    with Inr show ?thesis
      by (simp add: increment_session_participants_def)
  qed
qed

text \<open>A session with no recorded participant keeps the counter 0; another one goes from 3
  to 2.\<close>

theorem participants_never_negative_witness:
  "participants_nonneg example_sessions \<and>
   (\<exists>d'. decrement_session_participants 5 ''s1'' example_sessions = Inr d' \<and>
      map s_current_participants (sessions d') = [Some 0, Some 3] \<and> participants_nonneg d') \<and>
   (\<exists>d'. decrement_session_participants 5 ''s2'' example_sessions = Inr d' \<and>
      map s_current_participants (sessions d') = [Some 0, Some 2] \<and> participants_nonneg d')"
proof -
  have h: "participants_nonneg example_sessions"
    by (simp add: participants_nonneg_def example_sessions_def)
  show ?thesis
    using h participants_never_negative [OF h, of 5 "''s1''"]
      participants_never_negative [OF h, of 5 "''s2''"]
    by (auto simp add: example_sessions_def)
qed

text \<open>
  \<^verbatim>\<open>sessionsService.removeParticipant\<close> names the argument of its call
  \<^verbatim>\<open>session_id\<close>, the function declares \<^verbatim>\<open>session_uuid\<close>: the call finds no
  function, its error is not looked at, and the counters stay as they were.
\<close>

lemma removeParticipant_sessions:
  "\<exists>d'. removeParticipant now sessionId memberId d = Inr d' \<and> sessions d' = sessions d"
  by (simp add: removeParticipant_def Let_def)


subsection \<open>Frames of the coach trigger\<close>

lemma recount_frame:
  "member_visits (recount now cid d) = member_visits d"
  "sessions (recount now cid d) = sessions d"
  "session_participants (recount now cid d) = session_participants d"
  by (simp_all add: recount_def)

lemma update_coach_client_count_frame:
  "member_visits (update_coach_client_count now ev d) = member_visits d"
  "sessions (update_coach_client_count now ev d) = sessions d"
  by (cases ev; simp add: recount_frame Let_def split: option.splits)+

lemma foldl_trigger_frame:
  "member_visits (foldl (\<lambda>acc old. update_coach_client_count now (ev old) acc) d xs) = member_visits d"
  by (induction xs arbitrary: d) (simp_all add: update_coach_client_count_frame)

lemma member_visits_update_members:
  assumes "update_members now P f d = Inr d'"
  shows "member_visits d' = member_visits d"
proof -
  let ?set_row = "\<lambda>m. update_updated_at now (f m)"
  let ?d1 = "d\<lparr>members := map (\<lambda>m. if P m then ?set_row m else m) (members d)\<rparr>"
  from assms have "d' = foldl (\<lambda>acc old. update_coach_client_count now (TG_UPDATE old (?set_row old)) acc)
                         ?d1 (filter P (members d))"
    by (simp only: update_members_def Let_def sum.inject sum.distinct split: if_splits)
  then have "member_visits d' = member_visits ?d1"
    by (simp only: foldl_trigger_frame [where ev = "\<lambda>old. TG_UPDATE old (?set_row old)"])
  then show ?thesis by simp
qed

subsection \<open>The visit trigger touches the visiting member only\<close>



subsection \<open>membersService.checkIn\<close>

text \<open>
  The body that \<^verbatim>\<open>checkIn\<close> sends for the member holds a request object where the
  column \<^verbatim>\<open>total_visits\<close> needs an integer: the statement is rejected as a whole.
\<close>

lemma checkIn_patch_rejected:
  "patch_members now mid
     [(''last_visit'', JTimestamp t1),
      (''total_visits'', rpc_request fn args),
      (''updated_at'', JTimestamp t2)] d = Inl invalid_text_representation"
  by (simp add: patch_members_def set_column_def rpc_request_def)

lemma checkIn_eq:
  "checkIn clk fresh memberId gymId d =
     (case insert_member_visit (db_insert_now clk)
             \<lparr>v_id = fresh, v_member_id = memberId, v_gym_id = gymId,
               v_check_in = Some (js_check_in clk), v_check_out = None,
               v_created_at = Some (db_insert_now clk)\<rparr> d of
        Inl e \<Rightarrow> Inl e
      | Inr d1 \<Rightarrow> Inr (\<lparr>v_id = fresh, v_member_id = memberId, v_gym_id = gymId,
               v_check_in = Some (js_check_in clk), v_check_out = None,
               v_created_at = Some (db_insert_now clk)\<rparr>, d1))"
  by (simp add: checkIn_def Let_def checkIn_patch_rejected split: sum.splits)

text \<open>
  \<^verbatim>\<open>increment_visits\<close> itself adds 1 to \<^verbatim>\<open>total_visits\<close> and stamps
  \<^verbatim>\<open>last_visit\<close> of the member. A call that names its argument \<^verbatim>\<open>member_id\<close> or
  \<^verbatim>\<open>session_id\<close>, as the services write it, finds no function.
\<close>

lemma increment_visits_members:
  assumes "increment_visits now member_uuid d = Inr (n, d')"
  shows "members d' =
           map (\<lambda>m. if m_id m = member_uuid
                     then m\<lparr>m_total_visits := map_option (\<lambda>k. k + 1) (m_total_visits m),
                            m_last_visit := Some now, m_updated_at := Some now\<rparr>
                     else m) (members d)"
proof -
  from assms obtain d1 where
    "update_members now (\<lambda>m. m_id m = member_uuid)
       (\<lambda>m. m\<lparr>m_total_visits := map_option (\<lambda>n. n + 1) (m_total_visits m),
              m_last_visit := Some now\<rparr>) d = Inr d1" and "d' = d1"
    by (auto simp add: increment_visits_def split: if_splits sum.splits)
  then show ?thesis
    using members_update_members [of now "\<lambda>m. m_id m = member_uuid" _ d d1]
    by (simp add: update_updated_at_def)
qed

lemma rpc_wrong_argument_name:
  "rpc now ''increment_visits'' [(''member_id'', v)] d = Inl undefined_function"
  "rpc now ''increment_session_participants'' [(''session_id'', v)] d = Inl undefined_function"
  "rpc now ''decrement_session_participants'' [(''session_id'', v)] d = Inl undefined_function"
  by simp_all

text \<open>
  C3, as the code behaves. A check-in of an existing member returns, appends exactly one
  visit row whose \<^verbatim>\<open>check_in\<close> is the client's timestamp, and leaves
  \<^verbatim>\<open>total_visits\<close> and \<^verbatim>\<open>last_visit\<close> of every member, the visitor
  included, as they were.
\<close>

theorem checkIn_keeps_total_visits:
  assumes "fresh \<notin> set (map v_id (member_visits d))"
    and "memberId \<in> set (map m_id (members d))"
  shows "\<exists>row d'. checkIn clk fresh memberId gymId d = Inr (row, d') \<and>
           member_visits d' = member_visits d @ [row] \<and>
           v_check_in row = Some (js_check_in clk) \<and>
           map m_total_visits (members d') = map m_total_visits (members d) \<and>
           map m_last_visit (members d') = map m_last_visit (members d)"
proof -
  let ?row = "\<lparr>v_id = fresh, v_member_id = memberId, v_gym_id = gymId,
               v_check_in = Some (js_check_in clk), v_check_out = None,
               v_created_at = Some (db_insert_now clk)\<rparr>"
  let ?d0 = "d\<lparr>member_visits := member_visits d @ [?row]\<rparr>"
  obtain d' where d': "update_member_activity_status (db_insert_now clk) ?row ?d0 = Inr d'"
    using update_member_activity_status_total by blast
  have ins: "insert_member_visit (db_insert_now clk) ?row d = Inr d'"
    using assms d' by (simp add: insert_member_visit_def)
  have mem: "members d' =
           map (\<lambda>m. if m_id m = memberId
                     then m\<lparr>m_activity_status := Some (activity_case (db_insert_now clk) (m_last_visit m)),
                            m_updated_at := Some (db_insert_now clk)\<rparr>
                     else m) (members d)"
    using members_update_member_activity_status [OF d'] by simp
  have vis: "member_visits d' = member_visits d @ [?row]"
    using member_visits_update_members [OF d' [unfolded update_member_activity_status_def]]
    by simp
  have "checkIn clk fresh memberId gymId d = Inr (?row, d')"
    by (simp add: checkIn_eq ins)
  moreover have "map m_total_visits (members d') = map m_total_visits (members d)"
    by (simp add: mem comp_def cong: map_cong)
  moreover have "map m_last_visit (members d') = map m_last_visit (members d)"
    by (simp add: mem comp_def cong: map_cong)
  ultimately show ?thesis using vis by simp
qed

theorem checkIn_keeps_total_visits_witness:
  "\<exists>row d'. checkIn example_clock ''v1'' ''m1'' ''g1'' example_gym = Inr (row, d') \<and>
     member_visits d' = [row] \<and> v_check_in row = Some 5000 \<and>
     map m_total_visits (members d') = [Some 0, Some 7, Some 1] \<and>
     map m_last_visit (members d') = [None, Some 1000, Some 2000]"
  using checkIn_keeps_total_visits [of "''v1''" example_gym "''m1''" example_clock "''g1''"]
  by (simp add: example_gym_def example_clock_def)


subsection \<open>Coach client counters\<close>

lemma map_other_ids:
  "\<forall>x \<in> set xs. m_id x \<noteq> k \<Longrightarrow> map (\<lambda>x. if m_id x = k then g x else x) xs = xs"
  by (induction xs) simp_all

lemma filter_other_ids:
  "\<forall>x \<in> set xs. m_id x \<noteq> k \<Longrightarrow> filter (\<lambda>x. m_id x = k) xs = []"
  by (induction xs) simp_all

lemma filter_unique_id:
  "distinct (map m_id xs) \<Longrightarrow> m \<in> set xs \<Longrightarrow> filter (\<lambda>x. m_id x = m_id m) xs = [m]"
proof (induction xs)
  case Nil
  then show ?case by simp
next
  case (Cons x xs)
  show ?case
  proof (cases "x = m")
    case True
    with Cons.prems have "m_id m \<notin> m_id ` set xs"
      by simp
    then have "\<forall>y \<in> set xs. m_id y \<noteq> m_id m"
      by (metis imageI)
    with True show ?thesis
      by (simp add: filter_other_ids)
  next
    case False
    with Cons.prems have "m \<in> set xs" "m_id x \<noteq> m_id m" "distinct (map m_id xs)"
      by auto
    with Cons.IH show ?thesis by simp
  qed
qed

lemma count_after_row_update:
  "distinct (map m_id xs) \<Longrightarrow> m \<in> set xs \<Longrightarrow>
   int (length (filter Q (map (\<lambda>x. if m_id x = m_id m then g x else x) xs))) =
     int (length (filter Q xs)) - (if Q m then 1 else 0) + (if Q (g m) then 1 else 0)"
proof (induction xs)
  case Nil
  then show ?case by simp
next
  case (Cons x xs)
  show ?case
  proof (cases "x = m")
    case True
    with Cons.prems have "m_id m \<notin> m_id ` set xs"
      by simp
    then have "\<forall>y \<in> set xs. m_id y \<noteq> m_id m"
      by (metis imageI)
    then have "map (\<lambda>x. if m_id x = m_id m then g x else x) xs = xs"
      by (rule map_other_ids)
    with True show ?thesis by simp
  next
    case False
    with Cons.prems have "m \<in> set xs" "m_id x \<noteq> m_id m" "distinct (map m_id xs)"
      by auto
    with Cons.IH show ?thesis by (cases "Q m"; cases "Q (g m)"; simp)
  qed
qed

lemma find_map_row:
  "find P (map g xs) = map_option g (find (\<lambda>x. P (g x)) xs)"
  by (induction xs) simp_all

lemma find_coach_Some:
  "find (\<lambda>c. c_id c = a) cs = Some c \<Longrightarrow> c_id c = a \<and> a \<in> set (map c_id cs)"
  by (induction cs) (auto split: if_splits)

lemma find_coach_None:
  "find (\<lambda>c. c_id c = a) cs = None \<longleftrightarrow> a \<notin> set (map c_id cs)"
  by (induction cs) auto

lemma client_count_recount:
  "client_count a (recount now b d) =
     (if a = b then (if a \<in> set (map c_id (coaches d)) then Some (count_members b d) else None)
      else client_count a d)"
proof -
  let ?g = "\<lambda>c. if c_id c = b
                   then c\<lparr>c_client_count := Some (count_members b d), c_updated_at := Some now\<rparr>
                   else c"
  have same: "(\<lambda>x. c_id (?g x) = a) = (\<lambda>c. c_id c = a)"
    by (rule ext) simp
  have co: "coaches (recount now b d) = map ?g (coaches d)"
    by (simp add: recount_def)
  have fm: "find (\<lambda>c. c_id c = a) (coaches (recount now b d)) =
              map_option ?g (find (\<lambda>c. c_id c = a) (coaches d))"
    by (simp only: co find_map_row same)
  show ?thesis
  proof (cases "find (\<lambda>c. c_id c = a) (coaches d)")
    case None
    then have "a \<notin> set (map c_id (coaches d))"
      using find_coach_None [of a "coaches d"] by blast
    with None fm show ?thesis
      by (auto simp add: client_count_def)
  next
    case (Some c)
    then have "c_id c = a" "a \<in> set (map c_id (coaches d))"
      using find_coach_Some by blast+
    with Some fm show ?thesis
      by (auto simp add: client_count_def)
  qed
qed

lemma count_members_recount: "count_members a (recount now b d) = count_members a d"
  by (simp add: count_members_def recount_def)

lemma coaches_ids_recount: "map c_id (coaches (recount now b d)) = map c_id (coaches d)"
  by (simp add: recount_def comp_def cong: map_cong)

lemma reassign_eq:
  assumes dist: "distinct (map m_id (members d))"
    and m: "m \<in> set (members d)" "m_coach_id m = Some A"
    and B: "B \<in> set (map c_id (coaches d))"
    and AB: "A \<noteq> B"
  shows "update_members now (\<lambda>x. m_id x = m_id m) (\<lambda>x. x\<lparr>m_coach_id := Some B\<rparr>) d =
           Inr (recount now A (recount now B
                  (d\<lparr>members := map (\<lambda>x. if m_id x = m_id m
                                           then x\<lparr>m_coach_id := Some B, m_updated_at := Some now\<rparr>
                                           else x) (members d)\<rparr>)))"
proof -
  have one: "filter (\<lambda>x. m_id x = m_id m) (members d) = [m]"
    using dist m(1) by (rule filter_unique_id)
  show ?thesis
    using m(2) B AB
    by (simp add: update_members_def Let_def one update_updated_at_def fk_coach_ok_def
        sql_ne_def sql_and_def is_not_null_def is_true_def)
qed

text \<open>
  Setting \<^verbatim>\<open>coach_id\<close> to \<^verbatim>\<open>NULL\<close>: \<^verbatim>\<open>NEW.coach_id\<close> is null, so the first
  branch of the trigger does nothing, and \<^verbatim>\<open>OLD.coach_id != NEW.coach_id\<close> is null, so
  the second does nothing either. The coaches table is not written.
\<close>

lemma unassign_eq:
  "update_members now P (\<lambda>x. x\<lparr>m_coach_id := None\<rparr>) d =
     Inr (d\<lparr>members := map (\<lambda>x. if P x then x\<lparr>m_coach_id := None, m_updated_at := Some now\<rparr> else x)
                          (members d)\<rparr>)"
proof -
  have step: "update_coach_client_count now
                (TG_UPDATE old (update_updated_at now (old\<lparr>m_coach_id := None\<rparr>))) acc = acc"
    for old acc
    by (simp add: update_updated_at_def sql_ne_def sql_and_def is_not_null_def is_true_def
        split: option.splits)
  have idle: "foldl (\<lambda>acc old. update_coach_client_count now
                (TG_UPDATE old (update_updated_at now (old\<lparr>m_coach_id := None\<rparr>))) acc) d0 xs = d0"
    for d0 xs
    by (induction xs) (simp_all only: foldl.simps step)
  show ?thesis
    unfolding update_members_def Let_def idle
    by (simp add: update_updated_at_def fk_coach_ok_def list_all_iff)
qed

text \<open>The insert and the delete of a member with a coach recount that coach.\<close>

lemma insert_member_recounts:
  assumes "insert_member now new d = Inr d'" "m_coach_id new = Some A"
  shows "client_count A d' = Some (count_members A d')"
proof -
  from assms have A: "A \<in> set (map c_id (coaches d))"
    and d': "d' = recount now A (d\<lparr>members := members d @ [new]\<rparr>)"
    by (simp_all add: insert_member_def fk_coach_ok_def split: if_splits)
  from A show ?thesis
    unfolding d' by (simp add: client_count_recount count_members_recount)
qed

lemma delete_member_recounts:
  assumes dist: "distinct (map m_id (members d))"
    and m: "m \<in> set (members d)" "m_coach_id m = Some A"
    and A: "A \<in> set (map c_id (coaches d))"
  shows "client_count A (delete_member now (m_id m) d) =
           Some (count_members A (delete_member now (m_id m) d))"
proof -
  have one: "filter (\<lambda>x. m_id x = m_id m) (members d) = [m]"
    using dist m(1) by (rule filter_unique_id)
  from A m(2) show ?thesis
    by (simp add: delete_member_def Let_def one client_count_recount count_members_recount)
qed

text \<open>
  C6, amended. Member ids are unique, the member \<open>m\<close> references coach \<open>A\<close>, \<open>B\<close> is
  another coach, and before the update the stored \<^verbatim>\<open>client_count\<close> of \<open>A\<close> and of
  \<open>B\<close> equal the numbers \<open>a\<close> and \<open>b\<close> of members that reference them. Then
  \<^verbatim>\<open>UPDATE members SET coach_id = B WHERE id = m.id\<close> succeeds and leaves
  \<open>A\<close> with \<open>a - 1\<close> and \<open>B\<close> with \<open>b + 1\<close>, which are again the numbers of members
  that reference them.
\<close>

theorem reassign_moves_one_client:
  assumes dist: "distinct (map m_id (members d))"
    and m: "m \<in> set (members d)" "m_coach_id m = Some A"
    and AB: "A \<noteq> B"
    and A: "client_count A d = Some a" "count_members A d = a"
    and B: "client_count B d = Some b" "count_members B d = b"
  shows "\<exists>d'. update_members now (\<lambda>x. m_id x = m_id m) (\<lambda>x. x\<lparr>m_coach_id := Some B\<rparr>) d = Inr d' \<and>
           client_count A d' = Some (a - 1) \<and>
           client_count B d' = Some (b + 1) \<and>
           count_members A d' = a - 1 \<and>
           count_members B d' = b + 1"
proof -
  let ?g = "\<lambda>x. x\<lparr>m_coach_id := Some B, m_updated_at := Some now\<rparr>"
  let ?d1 = "d\<lparr>members := map (\<lambda>x. if m_id x = m_id m then ?g x else x) (members d)\<rparr>"
  let ?d' = "recount now A (recount now B ?d1)"
  have Ain: "A \<in> set (map c_id (coaches d))"
    using A(1) find_coach_Some [of A "coaches d"] by (auto simp add: client_count_def split: option.splits)
  have Bin: "B \<in> set (map c_id (coaches d))"
    using B(1) find_coach_Some [of B "coaches d"] by (auto simp add: client_count_def split: option.splits)
  have upd: "update_members now (\<lambda>x. m_id x = m_id m) (\<lambda>x. x\<lparr>m_coach_id := Some B\<rparr>) d = Inr ?d'"
    using dist m Bin AB by (rule reassign_eq)
  have cA: "count_members A ?d1 = a - 1"
    using count_after_row_update [OF dist m(1), of "\<lambda>x. m_coach_id x = Some A" ?g] m(2) AB A(2)
    by (simp add: count_members_def)
  have cB: "count_members B ?d1 = b + 1"
    using count_after_row_update [OF dist m(1), of "\<lambda>x. m_coach_id x = Some B" ?g] m(2) AB B(2)
    by (simp add: count_members_def)
  have rA: "client_count A ?d' = Some (count_members A ?d1)"
    using Ain by (simp add: client_count_recount count_members_recount coaches_ids_recount)
  have rB: "client_count B ?d' = Some (count_members B ?d1)"
    using Bin AB by (simp add: client_count_recount count_members_recount coaches_ids_recount)
  have "count_members A ?d' = count_members A ?d1" "count_members B ?d' = count_members B ?d1"
    by (simp_all add: count_members_recount)
  with upd rA rB cA cB show ?thesis by simp
qed

text \<open>In the example gym, moving \<open>m1\<close> from \<open>c1\<close> to \<open>c2\<close> takes the counters from
  2 and 0 to 1 and 1.\<close>

theorem reassign_moves_one_client_witness:
  "\<exists>d'. update_members 7 (\<lambda>x. m_id x = ''m1'') (\<lambda>x. x\<lparr>m_coach_id := Some ''c2''\<rparr>) example_gym = Inr d' \<and>
     client_count ''c1'' example_gym = Some 2 \<and> client_count ''c2'' example_gym = Some 0 \<and>
     client_count ''c1'' d' = Some 1 \<and> client_count ''c2'' d' = Some 1"
proof -
  let ?m = "members example_gym ! 0"
  have dist: "distinct (map m_id (members example_gym))"
    by (simp add: example_gym_def)
  have m: "?m \<in> set (members example_gym)" "m_coach_id ?m = Some ''c1''"
    by (simp_all add: example_gym_def)
  have AB: "''c1'' \<noteq> ''c2''"
    by simp
  have A: "client_count ''c1'' example_gym = Some 2" "count_members ''c1'' example_gym = 2"
    by (simp_all add: example_gym_def client_count_def count_members_def)
  have B: "client_count ''c2'' example_gym = Some 0" "count_members ''c2'' example_gym = 0"
    by (simp_all add: example_gym_def client_count_def count_members_def)
  have id: "m_id ?m = ''m1''"
    by (simp add: example_gym_def)
  from reassign_moves_one_client [OF dist m AB A B, of 7]
  obtain d' where "update_members 7 (\<lambda>x. m_id x = ''m1'') (\<lambda>x. x\<lparr>m_coach_id := Some ''c2''\<rparr>) example_gym = Inr d'"
    "client_count ''c1'' d' = Some 1" "client_count ''c2'' d' = Some 1"
    by (auto simp add: id)
  with A(1) B(1) show ?thesis by blast
qed

text \<open>
  C6 as stated fails where a stored counter is stale. From the example gym, whose counters
  are exact: \<open>m1\<close> is unassigned (the counter of \<open>c1\<close> stays 2 with one member left),
  then \<open>m2\<close> is moved from \<open>c1\<close> to \<open>c2\<close>. The counter of \<open>c1\<close> goes from 2 to 0: the
  recount lowers it by 2, not by 1.
\<close>

theorem stale_count_reassign:
  "\<exists>d1 d2.
     update_members 7 (\<lambda>x. m_id x = ''m1'') (\<lambda>x. x\<lparr>m_coach_id := None\<rparr>) example_gym = Inr d1 \<and>
     update_members 8 (\<lambda>x. m_id x = ''m2'') (\<lambda>x. x\<lparr>m_coach_id := Some ''c2''\<rparr>) d1 = Inr d2 \<and>
     client_count ''c1'' d1 = Some 2 \<and> client_count ''c1'' d2 = Some 0 \<and>
     client_count ''c2'' d1 = Some 0 \<and> client_count ''c2'' d2 = Some 1"
  by (simp add: unassign_eq example_gym_def update_members_def Let_def update_updated_at_def
      fk_coach_ok_def sql_ne_def sql_and_def is_not_null_def is_true_def recount_def
      count_members_def client_count_def)

text \<open>
  C5 at an unassignment. In the example gym \<open>c1\<close> has two members and
  \<^verbatim>\<open>client_count\<close> 2. After \<^verbatim>\<open>UPDATE members SET coach_id = NULL WHERE id = 'm1'\<close>
  one member references \<open>c1\<close>, and its \<^verbatim>\<open>client_count\<close> is still 2.
\<close>

theorem unassign_leaves_stale_count:
  "\<exists>d'. update_members 7 (\<lambda>x. m_id x = ''m1'') (\<lambda>x. x\<lparr>m_coach_id := None\<rparr>) example_gym = Inr d' \<and>
     client_count ''c1'' example_gym = Some 2 \<and> count_members ''c1'' example_gym = 2 \<and>
     client_count ''c1'' d' = Some 2 \<and> count_members ''c1'' d' = 1"
  by (simp add: unassign_eq example_gym_def client_count_def count_members_def)


subsection \<open>Sums of the dashboard and of the payment statistics\<close>

lemma num_or_Some:
  "num_or ops (Some v) = (if num_falsy ops v then num_zero ops else v)"
  by (simp add: num_or_def)

lemma getOverview_fulfilled:
  "getOverview ops clk order (fulfilled mR) (fulfilled cR) (fulfilled pR) (fulfilled sR) (fulfilled aR) =
     Inr (snapshot ops clk mR cR pR sR aR)"
  by (simp add: getOverview_def)

lemma mrr_snapshot:
  "mrr (snapshot ops clk mR cR pR sR aR) =
     foldl (\<lambda>sum m. num_plus ops sum (num_or ops (mr_monthly_fee m))) (num_zero ops)
       (data_or_empty mR)"
  by (simp add: snapshot_def Let_def)

lemma revenueThisMonth_snapshot:
  "revenueThisMonth (snapshot ops clk mR cR pR sR aR) =
     sum_amount ops (filter (paid_since (startOfMonth clk)) (data_or_empty pR))"
  by (simp add: snapshot_def Let_def)

lemma getStats_ok:
  "getStats ops start (ok ps) =
     Inr \<lparr>stats_revenueThisMonth = sum_amount ops (filter (paid_since start) ps),
          stats_pendingAmount = sum_amount ops (filter (\<lambda>p. p_status p = Some pending) ps),
          stats_overdueAmount = sum_amount ops (filter (\<lambda>p. p_status p = Some overdue) ps),
          stats_totalPaid = sum_amount ops (filter (\<lambda>p. p_status p = Some paid) ps)\<rparr>"
  by (simp add: getStats_def ok_def)

lemma data_or_empty_ok: "data_or_empty \<lparr>data = Some rows, error = None\<rparr> = rows"
  by (simp add: data_or_empty_def)

text \<open>With the addition of integers the two reductions are the sums of the lists.\<close>

lemma foldl_plus_sum_list:
  "foldl (\<lambda>sum x. sum + f x) a xs = a + sum_list (map f xs)" for a :: int
  by (induction xs arbitrary: a) simp_all

lemma integer_numbers_simps:
  "num_zero integer_numbers = 0"
  "num_plus integer_numbers a b = a + b"
  "num_falsy integer_numbers a = (a = 0)"
  by (simp_all add: integer_numbers_def)

lemma num_or_integer:
  "num_or integer_numbers x = (case x of None \<Rightarrow> 0 | Some v \<Rightarrow> v)"
  by (simp add: num_or_def integer_numbers_def split: option.splits)

lemma sum_amount_integer: "sum_amount integer_numbers ps = sum_list (map p_amount ps)"
proof -
  have "sum_amount integer_numbers ps = foldl (\<lambda>sum p. sum + p_amount p) 0 ps"
    by (simp add: sum_amount_def num_or_integer integer_numbers_simps)
  then show ?thesis
    by (simp add: foldl_plus_sum_list)
qed

subsection \<open>Monthly recurring revenue\<close>

text \<open>
  C4, amended. When the five reads resolve, the \<^verbatim>\<open>mrr\<close> of the snapshot is the sum
  of the monthly fees of all the member rows of the read, whatever their
  \<^verbatim>\<open>activity_status\<close>: the fees are added from the left, starting from 0, with the
  addition of JavaScript numbers, a null fee and a fee that counts as false adding 0.
\<close>

theorem overview_mrr_sums_all_members:
  "\<exists>ov. getOverview ops clk order
          (fulfilled mR) (fulfilled cR) (fulfilled pR) (fulfilled sR) (fulfilled aR) = Inr ov \<and>
     mrr ov =
       foldl (\<lambda>sum m. num_plus ops sum
                (case mr_monthly_fee m of
                   None \<Rightarrow> num_zero ops
                 | Some fee \<Rightarrow> if num_falsy ops fee then num_zero ops else fee))
         (num_zero ops) (data_or_empty mR)"
  by (simp add: getOverview_fulfilled mrr_snapshot num_or_def)

text \<open>The members of the example gym pay 49, 29 and nothing.\<close>

theorem overview_mrr_sums_all_members_witness:
  "\<exists>ov. getOverview integer_numbers example_overview_clock [] (ok example_member_rows)
          (ok (coaches example_gym)) (ok example_payments) (ok []) (ok []) = Inr ov \<and>
        mrr ov = 49 + 29 + 0"
  using overview_mrr_sums_all_members [of integer_numbers example_overview_clock "[]"
      "\<lparr>data = Some example_member_rows, error = None\<rparr>"
      "\<lparr>data = Some (coaches example_gym), error = None\<rparr>"
      "\<lparr>data = Some example_payments, error = None\<rparr>"
      "\<lparr>data = Some [], error = None\<rparr>" "\<lparr>data = Some [], error = None\<rparr>"]
  by (simp add: ok_def data_or_empty_ok example_member_rows_def integer_numbers_simps)

text \<open>
  C4 as stated fails: in the example gym only \<open>m1\<close> is active, with a fee of 49, and the
  \<^verbatim>\<open>mrr\<close> of the snapshot is 78, the inactive \<open>m2\<close> included.
\<close>

theorem overview_mrr_counts_inactive_members:
  "\<exists>ov. getOverview integer_numbers example_overview_clock [] (ok example_member_rows)
          (ok (coaches example_gym)) (ok example_payments) (ok []) (ok []) = Inr ov \<and>
        mrr ov = 78 \<and> spec_mrr integer_numbers example_member_rows = 49"
  by (simp add: ok_def getOverview_fulfilled mrr_snapshot data_or_empty_ok spec_mrr_def
      num_or_integer example_member_rows_def integer_numbers_simps)

subsection \<open>Revenue of the current month\<close>

lemma spec_revenue_when_none_later:
  assumes "\<forall>p \<in> set ps. \<forall>t. p_status p = Some paid \<and> p_paid_date p = Some t \<longrightarrow> t < now"
  shows "filter (\<lambda>p. p_status p = Some paid \<and>
                    (case p_paid_date p of None \<Rightarrow> False | Some t \<Rightarrow> start \<le> t \<and> t < now)) ps
         = filter (paid_since start) ps"
  using assms by (intro filter_cong refl) (auto simp add: paid_since_def split: option.splits)

lemma foldl_amounts:
  assumes "\<forall>p \<in> set ps. num_falsy ops (p_amount p) \<longrightarrow> p_amount p = num_zero ops"
  shows "foldl (\<lambda>sum p. num_plus ops sum
                  (if num_falsy ops (p_amount p) then num_zero ops else p_amount p)) a ps =
         foldl (num_plus ops) a (map p_amount ps)"
  using assms by (induction ps arbitrary: a) auto

text \<open>
  C7, amended. \<^verbatim>\<open>getStats\<close> and \<^verbatim>\<open>getOverview\<close> return, and both give as
  \<^verbatim>\<open>revenueThisMonth\<close> the sum of \<^verbatim>\<open>amount\<close> over the payments with status paid
  and a \<^verbatim>\<open>paid_date\<close> at or after the first of the month, with no upper bound: the
  amounts are added from the left, starting from 0, with the addition of JavaScript
  numbers, an amount that counts as false adding 0. When no paid payment is dated at or
  after \<open>now\<close> (and the only amount that counts as false is 0), this is the sum, added in
  the same way, over the half-open interval from the first of the month to \<open>now\<close>.
\<close>

theorem revenueThisMonth_since_first_of_month:
  assumes "startOfMonth clk = first_of_month"
  shows "\<exists>st ov.
           getStats ops first_of_month (ok ps) = Inr st \<and>
           getOverview ops clk order
             (fulfilled mR) (fulfilled cR) (ok ps) (fulfilled sR) (fulfilled aR) = Inr ov \<and>
           stats_revenueThisMonth st =
             foldl (\<lambda>sum p. num_plus ops sum
                      (if num_falsy ops (p_amount p) then num_zero ops else p_amount p))
               (num_zero ops) (filter (paid_since first_of_month) ps) \<and>
           revenueThisMonth ov =
             foldl (\<lambda>sum p. num_plus ops sum
                      (if num_falsy ops (p_amount p) then num_zero ops else p_amount p))
               (num_zero ops) (filter (paid_since first_of_month) ps) \<and>
           ((\<forall>p \<in> set ps. \<forall>t. p_status p = Some paid \<and> p_paid_date p = Some t \<longrightarrow> t < now) \<and>
            (\<forall>p \<in> set ps. num_falsy ops (p_amount p) \<longrightarrow> p_amount p = num_zero ops) \<longrightarrow>
              stats_revenueThisMonth st = spec_revenueThisMonth ops first_of_month now ps \<and>
              revenueThisMonth ov = spec_revenueThisMonth ops first_of_month now ps)"
proof -
  let ?S = "foldl (\<lambda>sum p. num_plus ops sum
                      (if num_falsy ops (p_amount p) then num_zero ops else p_amount p))
               (num_zero ops) (filter (paid_since first_of_month) ps)"
  let ?st = "\<lparr>stats_revenueThisMonth = sum_amount ops (filter (paid_since first_of_month) ps),
          stats_pendingAmount = sum_amount ops (filter (\<lambda>p. p_status p = Some pending) ps),
          stats_overdueAmount = sum_amount ops (filter (\<lambda>p. p_status p = Some overdue) ps),
          stats_totalPaid = sum_amount ops (filter (\<lambda>p. p_status p = Some paid) ps)\<rparr>"
  let ?ov = "snapshot ops clk mR cR \<lparr>data = Some ps, error = None\<rparr> sR aR"
  have st: "getStats ops first_of_month (ok ps) = Inr ?st"
    by (rule getStats_ok)
  have ov: "getOverview ops clk order
      (fulfilled mR) (fulfilled cR) (ok ps) (fulfilled sR) (fulfilled aR) = Inr ?ov"
    by (simp add: ok_def getOverview_fulfilled)
  have s1: "stats_revenueThisMonth ?st = ?S"
    by (simp add: sum_amount_def num_or_Some)
  have s2: "revenueThisMonth ?ov = ?S"
    by (simp add: revenueThisMonth_snapshot data_or_empty_ok assms sum_amount_def num_or_Some)
  have s3: "?S = spec_revenueThisMonth ops first_of_month now ps"
    if later: "\<forall>p \<in> set ps. \<forall>t. p_status p = Some paid \<and> p_paid_date p = Some t \<longrightarrow> t < now"
      and zero: "\<forall>p \<in> set ps. num_falsy ops (p_amount p) \<longrightarrow> p_amount p = num_zero ops"
  proof -
    from zero have "\<forall>p \<in> set (filter (paid_since first_of_month) ps).
        num_falsy ops (p_amount p) \<longrightarrow> p_amount p = num_zero ops"
      by simp
    then have "?S = foldl (num_plus ops) (num_zero ops)
                      (map p_amount (filter (paid_since first_of_month) ps))"
      by (rule foldl_amounts)
    then show ?thesis
      using spec_revenue_when_none_later [OF later, of first_of_month]
      by (simp add: spec_revenueThisMonth_def)
  qed
  from s1 s2 s3 have s4:
    "(\<forall>p \<in> set ps. \<forall>t. p_status p = Some paid \<and> p_paid_date p = Some t \<longrightarrow> t < now) \<and>
     (\<forall>p \<in> set ps. num_falsy ops (p_amount p) \<longrightarrow> p_amount p = num_zero ops) \<longrightarrow>
       stats_revenueThisMonth ?st = spec_revenueThisMonth ops first_of_month now ps \<and>
       revenueThisMonth ?ov = spec_revenueThisMonth ops first_of_month now ps"
    by (simp only:) blast
  from st ov s1 s2 s4 show ?thesis
    by blast
qed

text \<open>
  C7 as stated fails: with the month starting at 1000 and \<open>now = 2000\<close>, the payment of 9
  dated 2500 is in \<^verbatim>\<open>revenueThisMonth\<close> (109) and not in the sum over the interval
  (100).
\<close>

theorem revenueThisMonth_counts_later_payments:
  "\<exists>st ov.
     getStats integer_numbers 1000 (ok example_payments) = Inr st \<and>
     getOverview integer_numbers example_overview_clock []
       (ok []) (ok []) (ok example_payments) (ok []) (ok []) = Inr ov \<and>
     stats_revenueThisMonth st = 109 \<and> revenueThisMonth ov = 109 \<and>
     spec_revenueThisMonth integer_numbers 1000 2000 example_payments = 100"
  by (simp add: getStats_def ok_def getOverview_fulfilled revenueThisMonth_snapshot
      data_or_empty_ok sum_amount_integer spec_revenueThisMonth_def paid_since_def
      integer_numbers_simps example_payments_def example_overview_clock_def)

text \<open>With \<open>now = 3000\<close> no example payment is dated later, and the two sums agree.\<close>

theorem revenueThisMonth_since_first_of_month_witness:
  "\<exists>st ov.
     getStats integer_numbers 1000 (ok example_payments) = Inr st \<and>
     getOverview integer_numbers example_overview_clock []
       (ok []) (ok []) (ok example_payments) (ok []) (ok []) = Inr ov \<and>
     stats_revenueThisMonth st = 109 \<and> revenueThisMonth ov = 109 \<and>
     spec_revenueThisMonth integer_numbers 1000 3000 example_payments = 109"
proof -
  have clk: "startOfMonth example_overview_clock = 1000"
    by (simp add: example_overview_clock_def)
  have earlier: "\<forall>p \<in> set example_payments.
      \<forall>t. p_status p = Some paid \<and> p_paid_date p = Some t \<longrightarrow> t < 3000"
    by (simp add: example_payments_def)
  have zero: "\<forall>p \<in> set example_payments.
      num_falsy integer_numbers (p_amount p) \<longrightarrow> p_amount p = num_zero integer_numbers"
    by (simp add: integer_numbers_simps)
  have total: "foldl (\<lambda>sum p. num_plus integer_numbers sum
                      (if num_falsy integer_numbers (p_amount p) then num_zero integer_numbers
                       else p_amount p))
               (num_zero integer_numbers) (filter (paid_since 1000) example_payments) = 109"
    by (simp add: example_payments_def paid_since_def integer_numbers_simps)
  from revenueThisMonth_since_first_of_month [OF clk, of integer_numbers example_payments "[]"
      "\<lparr>data = Some [], error = None\<rparr>" "\<lparr>data = Some [], error = None\<rparr>"
      "\<lparr>data = Some [], error = None\<rparr>" "\<lparr>data = Some [], error = None\<rparr>" 3000]
  obtain st ov where
    "getStats integer_numbers 1000 (ok example_payments) = Inr st"
    "getOverview integer_numbers example_overview_clock []
       (ok []) (ok []) (ok example_payments) (ok []) (ok []) = Inr ov"
    "stats_revenueThisMonth st = 109" "revenueThisMonth ov = 109"
    "stats_revenueThisMonth st = spec_revenueThisMonth integer_numbers 1000 3000 example_payments"
    using earlier zero total by (auto simp add: ok_def [of "[]"])
  then show ?thesis by (metis (no_types))
qed

subsection \<open>Failure of the dashboard reads\<close>

lemma thrown_cases:
  "thrown order rs e = e \<or> Some (thrown order rs e) \<in> set rs"
proof (cases "List.map_filter (\<lambda>i. if i < length rs then rs ! i else None) order")
  case Nil
  then show ?thesis by (simp add: thrown_def)
next
  case (Cons e' es)
  then have "e' \<in> set (List.map_filter (\<lambda>i. if i < length rs then rs ! i else None) order)"
    by simp
  then obtain i where "i < length rs" "rs ! i = Some e'"
    by (auto simp add: List.map_filter_def split: if_splits)
  then have "Some e' \<in> set rs"
    by (metis nth_mem)
  with Cons show ?thesis by (simp add: thrown_def)
qed

lemma rejection_Some: "rejection r = Some e \<longleftrightarrow> r = rejected e"
  by (cases r) (simp_all add: rejection_def)

text \<open>
  C2, amended. If the promise of one of the five reads is rejected, \<^verbatim>\<open>getOverview\<close>
  fails and returns no snapshot, and it fails only with the rejection of one of the reads.
  If the five reads resolve, with rows or with an error, \<^verbatim>\<open>getOverview\<close> returns the
  snapshot, in which a read that resolved with an error counts as a read of no rows.
\<close>

theorem getOverview_fails_on_rejection:
  "(is_rejected r1 \<or> is_rejected r2 \<or> is_rejected r3 \<or> is_rejected r4 \<or> is_rejected r5 \<longrightarrow>
      (\<exists>e. getOverview ops clk order r1 r2 r3 r4 r5 = Inl e)) \<and>
   (getOverview ops clk order r1 r2 r3 r4 r5 = Inl e \<longrightarrow>
      r1 = rejected e \<or> r2 = rejected e \<or> r3 = rejected e \<or> r4 = rejected e \<or> r5 = rejected e) \<and>
   getOverview ops clk order
     (fulfilled mR) (fulfilled cR) (fulfilled pR) (fulfilled sR) (fulfilled aR) =
     Inr (snapshot ops clk mR cR pR sR aR)"
proof (intro conjI impI)
  assume "is_rejected r1 \<or> is_rejected r2 \<or> is_rejected r3 \<or> is_rejected r4 \<or> is_rejected r5"
  then show "\<exists>e. getOverview ops clk order r1 r2 r3 r4 r5 = Inl e"
    by (auto simp add: getOverview_def is_rejected_def Let_def split: settled.splits)
next
  let ?rs = "[rejection r1, rejection r2, rejection r3, rejection r4, rejection r5]"
  assume fails: "getOverview ops clk order r1 r2 r3 r4 r5 = Inl e"
  then obtain e0 where e: "e = thrown order ?rs e0"
    and e0: "r1 = rejected e0 \<or> r2 = rejected e0 \<or> r3 = rejected e0 \<or> r4 = rejected e0 \<or>
             r5 = rejected e0"
    by (auto simp add: getOverview_def Let_def split: settled.splits)
  from thrown_cases [of order ?rs e0] e have "e = e0 \<or> Some e \<in> set ?rs"
    by simp
  moreover have "r1 = rejected e \<or> r2 = rejected e \<or> r3 = rejected e \<or> r4 = rejected e \<or>
             r5 = rejected e" if "Some e \<in> set ?rs"
  proof -
    from that have "rejection r1 = Some e \<or> rejection r2 = Some e \<or> rejection r3 = Some e \<or>
        rejection r4 = Some e \<or> rejection r5 = Some e"
      by auto
    then show ?thesis
      by (simp only: rejection_Some)
  qed
  ultimately show "r1 = rejected e \<or> r2 = rejected e \<or> r3 = rejected e \<or> r4 = rejected e \<or>
             r5 = rejected e"
    using e0 by blast
next
  show "getOverview ops clk order
     (fulfilled mR) (fulfilled cR) (fulfilled pR) (fulfilled sR) (fulfilled aR) =
     Inr (snapshot ops clk mR cR pR sR aR)"
    by (rule getOverview_fulfilled)
qed

text \<open>The reads of the coaches and of the payments are rejected, the payments first: the
  rejection of the payments is thrown.\<close>

theorem getOverview_fails_on_rejection_witness:
  "is_rejected (rejected (Rejection ''fetch failed'') :: int payment response settled) \<and>
   getOverview integer_numbers example_overview_clock [0, 2, 1, 3, 4] (ok example_member_rows)
     (rejected (Rejection ''timeout'')) (rejected (Rejection ''fetch failed'')) (ok []) (ok []) =
     Inl (Rejection ''fetch failed'')"
  using getOverview_fails_on_rejection [of "ok example_member_rows"
      "rejected (Rejection ''timeout'')" "rejected (Rejection ''fetch failed'')" "ok []" "ok []"
      integer_numbers example_overview_clock "[0, 2, 1, 3, 4]"]
  by (simp add: is_rejected_def getOverview_def ok_def thrown_def rejection_def
      List.map_filter_def)

text \<open>
  C2 as stated fails: the read of the members resolves with an error and no rows, and
  \<^verbatim>\<open>getOverview\<close> returns a snapshot with no member and the coaches and payments of
  the other reads.
\<close>

theorem getOverview_returns_partial_snapshot:
  "read_failed (fulfilled \<lparr>data = None, error = Some ''permission denied''\<rparr>) \<and>
   (\<exists>ov. getOverview integer_numbers example_overview_clock []
            (fulfilled \<lparr>data = None, error = Some ''permission denied''\<rparr>)
            (ok (coaches example_gym)) (ok example_payments) (ok []) (ok []) = Inr ov \<and>
          totalMembers ov = 0 \<and> mrr ov = 0 \<and> totalCoaches ov = 2 \<and> revenueThisMonth ov = 109)"
  by (simp add: read_failed_def ok_def getOverview_fulfilled snapshot_def Let_def data_or_empty_def
      sum_amount_integer paid_since_def integer_numbers_simps example_gym_def example_payments_def
      example_overview_clock_def)

subsection \<open>Payments with no paid date\<close>

lemma add_payment_no_date:
  "p_paid_date p = None \<Longrightarrow> add_payment ops Y M buckets p = buckets"
  by (simp add: add_payment_def)

lemma paid_since_no_date: "p_paid_date p = None \<Longrightarrow> \<not> paid_since start p"
  by (simp add: paid_since_def)

lemma getRevenueByMonth_ok:
  "getRevenueByMonth ops Y M (ok rows) = Inr (foldl (add_payment ops Y M) Map.empty rows)"
  by (simp add: getRevenueByMonth_def ok_def)

lemma dom_add_payment:
  "dom (add_payment ops Y M buckets q) =
     dom buckets \<union> (case p_paid_date q of None \<Rightarrow> {} | Some t \<Rightarrow> {month_key Y M t})"
  by (simp add: add_payment_def Let_def split: option.splits)

lemma dom_buckets:
  "dom (foldl (add_payment ops Y M) buckets rows) =
     dom buckets \<union> {k. \<exists>q \<in> set rows. \<exists>t. p_paid_date q = Some t \<and> k = month_key Y M t}"
proof (induction rows arbitrary: buckets)
  case Nil
  show ?case by simp
next
  case (Cons q rows)
  show ?case
    by (cases "p_paid_date q") (auto simp add: Cons.IH dom_add_payment)
qed

lemma length_digits_lt_100: "n < 100 \<Longrightarrow> length (digits n) = (if n < 10 then 1 else 2)"
proof -
  assume n: "n < 100"
  have small: "length (digits k) = 1" if "k < 10" for k
    using that by (subst digits.simps) simp
  show ?thesis
  proof (cases "n < 10")
    case True
    then show ?thesis by (simp add: small del: digits.simps)
  next
    case False
    with n have "n div 10 < 10" by simp
    then have "length (digits (n div 10)) = 1" by (rule small)
    with False show ?thesis
      by (subst digits.simps) (simp del: digits.simps)
  qed
qed

lemma month_zero_padded:
  assumes "M t < 12"
  shows "length (padStart 2 CHR ''0'' (String_of (int (M t) + 1))) = 2"
proof -
  have "String_of (int (M t) + 1) = digits (M t + 1)"
    by (simp add: String_of_def nat_add_distrib del: digits.simps)
  moreover have "length (digits (M t + 1)) = (if M t + 1 < 10 then 1 else 2)"
    using assms by (intro length_digits_lt_100) simp
  ultimately show ?thesis
    by (simp add: padStart_def del: digits.simps)
qed

lemma revenue_rows_no_date:
  assumes "p_paid_date p = None"
  shows "revenue_rows gymId startDate (xs @ p # ys) = revenue_rows gymId startDate (xs @ ys)"
  using assms by (simp add: revenue_rows_def List.map_filter_def)

text \<open>
  C8. A payment with a null \<^verbatim>\<open>paid_date\<close> (whatever its status, paid included)
  changes no month-bucketed sum: with it or without it in the rows,
  \<^verbatim>\<open>revenueThisMonth\<close> of \<^verbatim>\<open>getStats\<close> and of the dashboard snapshot are the same,
  the query of \<^verbatim>\<open>getRevenueByMonth\<close> returns the same rows and its grouping the same
  buckets. The keys of the buckets are exactly the strings year, \<open>-\<close>, month of the
  \<^verbatim>\<open>paid_date\<close> of the dated rows, the month padded with 0 to two characters.
\<close>

theorem unpaid_date_in_no_bucket:
  assumes "p_paid_date p = None"
  shows "(\<exists>st st'. getStats ops start (ok (xs @ p # ys)) = Inr st \<and>
             getStats ops start (ok (xs @ ys)) = Inr st' \<and>
             stats_revenueThisMonth st = stats_revenueThisMonth st') \<and>
         revenueThisMonth (snapshot ops clk mR cR \<lparr>data = Some (xs @ p # ys), error = None\<rparr> sR aR) =
           revenueThisMonth (snapshot ops clk mR cR \<lparr>data = Some (xs @ ys), error = None\<rparr> sR aR) \<and>
         revenue_rows gymId startDate (xs @ p # ys) = revenue_rows gymId startDate (xs @ ys) \<and>
         getRevenueByMonth ops Y M (ok (xs @ p # ys)) = getRevenueByMonth ops Y M (ok (xs @ ys)) \<and>
         (\<exists>buckets. getRevenueByMonth ops Y M (ok (xs @ p # ys)) = Inr buckets \<and>
            dom buckets = {k. \<exists>q \<in> set (xs @ ys). \<exists>t. p_paid_date q = Some t \<and>
                              k = String_of (Y t) @ ''-'' @
                                  padStart 2 CHR ''0'' (String_of (int (M t) + 1))}) \<and>
         (M t0 < 12 \<longrightarrow> length (padStart 2 CHR ''0'' (String_of (int (M t0) + 1))) = 2)"
proof -
  have a: "\<exists>st st'. getStats ops start (ok (xs @ p # ys)) = Inr st \<and>
             getStats ops start (ok (xs @ ys)) = Inr st' \<and>
             stats_revenueThisMonth st = stats_revenueThisMonth st'"
    using assms by (simp add: getStats_ok paid_since_no_date)
  have b: "revenueThisMonth (snapshot ops clk mR cR \<lparr>data = Some (xs @ p # ys), error = None\<rparr> sR aR) =
           revenueThisMonth (snapshot ops clk mR cR \<lparr>data = Some (xs @ ys), error = None\<rparr> sR aR)"
    using assms by (simp add: revenueThisMonth_snapshot data_or_empty_ok paid_since_no_date)
  have c: "revenue_rows gymId startDate (xs @ p # ys) = revenue_rows gymId startDate (xs @ ys)"
    using assms by (rule revenue_rows_no_date)
  have d: "getRevenueByMonth ops Y M (ok (xs @ p # ys)) = getRevenueByMonth ops Y M (ok (xs @ ys))"
    using assms by (simp add: getRevenueByMonth_ok add_payment_no_date)
  have e: "\<exists>buckets. getRevenueByMonth ops Y M (ok (xs @ p # ys)) = Inr buckets \<and>
            dom buckets = {k. \<exists>q \<in> set (xs @ ys). \<exists>t. p_paid_date q = Some t \<and>
                              k = String_of (Y t) @ ''-'' @
                                  padStart 2 CHR ''0'' (String_of (int (M t) + 1))}"
    unfolding d by (auto simp add: getRevenueByMonth_ok dom_buckets month_key_def)
  have f: "M t0 < 12 \<longrightarrow> length (padStart 2 CHR ''0'' (String_of (int (M t0) + 1))) = 2"
    using month_zero_padded [of M t0] by blast
  from a b c d e f show ?thesis by blast
qed

text \<open>The example payment \<open>p4\<close> is paid and has no date; the dated ones fall in May and
  June 2024.\<close>

theorem unpaid_date_in_no_bucket_witness:
  "p_status (example_payments ! 3) = Some paid \<and>
   getRevenueByMonth integer_numbers (\<lambda>t. 2024) (\<lambda>t. if t < 2000 then 4 else 5) (ok example_payments) =
     getRevenueByMonth integer_numbers (\<lambda>t. 2024) (\<lambda>t. if t < 2000 then 4 else 5)
       (ok (take 3 example_payments @ drop 4 example_payments)) \<and>
   (\<exists>st st'. getStats integer_numbers 1000 (ok example_payments) = Inr st \<and>
      getStats integer_numbers 1000 (ok (take 3 example_payments @ drop 4 example_payments)) = Inr st' \<and>
      stats_revenueThisMonth st = stats_revenueThisMonth st') \<and>
   (\<exists>buckets. getRevenueByMonth integer_numbers (\<lambda>t. 2024) (\<lambda>t. if t < 2000 then 4 else 5)
        (ok example_payments) = Inr buckets \<and>
      buckets ''2024-05'' = Some 100 \<and> buckets ''2024-06'' = Some 9 \<and> buckets ''2024-5'' = None)"
proof -
  have nodate: "p_paid_date (example_payments ! 3) = None"
    by (simp add: example_payments_def)
  have parts: "take 3 example_payments @ example_payments ! 3 # drop 4 example_payments = example_payments"
    by (simp add: example_payments_def)
  have paid: "p_status (example_payments ! 3) = Some paid"
    by (simp add: example_payments_def)
  have buckets: "\<exists>buckets. getRevenueByMonth integer_numbers (\<lambda>t. 2024) (\<lambda>t. if t < 2000 then 4 else 5)
        (ok example_payments) = Inr buckets \<and>
      buckets ''2024-05'' = Some 100 \<and> buckets ''2024-06'' = Some 9 \<and> buckets ''2024-5'' = None"
    by (simp add: getRevenueByMonth_ok example_payments_def add_payment_def month_key_def
        String_of_def padStart_def num_or_integer integer_numbers_simps Let_def)
  from unpaid_date_in_no_bucket [OF nodate, of integer_numbers 1000 "take 3 example_payments"
      "drop 4 example_payments" _ _ _ _ _ _ _ "\<lambda>t. 2024" "\<lambda>t. if t < 2000 then 4 else 5",
      unfolded parts]
    paid buckets
  show ?thesis by blast
qed

end
